theory Spec2Isabelle
  imports Complex_Main "HOL-Library.AList"
begin

section \<open>DLinear anomaly detector (paddlets/models/anomaly/dl/dlinear\_ad.py)\<close>

text \<open>
  The embedding follows the Python source function by function.  Tensors are nested
  lists: a tensor of shape \<open>[B, L, C]\<close> is a list of \<open>B\<close> samples, each a list of
  \<open>L\<close> timesteps, each a list of \<open>C\<close> channel values.  The \<open>float32\<close> entries are
  read as real numbers, so every statement below is about exact arithmetic; rounding
  and the special values of IEEE arithmetic are outside the model.
\<close>

subsection \<open>Tensors and errors\<close>

type_synonym tensor1 = "real list"
type_synonym tensor2 = "real list list"
type_synonym tensor3 = "real list list list"

text \<open>The exceptions that the modelled code paths can raise.\<close>

datatype error =
    KeyError
  | ValueError
  | TypeError
  | IndexError
  | AttributeError
  | ShapeError
  | ConfigurationError
  | IOError

definition shape2 :: "nat \<Rightarrow> nat \<Rightarrow> 'a list list \<Rightarrow> bool" where
  "shape2 L C x \<longleftrightarrow> length x = L \<and> list_all (\<lambda>v. length v = C) x"

definition shape3 :: "nat \<Rightarrow> nat \<Rightarrow> nat \<Rightarrow> 'a list list list \<Rightarrow> bool" where
  "shape3 B L C x \<longleftrightarrow> length x = B \<and> list_all (shape2 L C) x"

subsection \<open>The detector object and the hooks of its base class\<close>

text \<open>
  A \<open>TSDataset\<close> is used only through its observed covariates, a data frame with a
  number of columns and a list of rows.
\<close>

record dataframe =
  columns :: nat
  rows :: "real list list"

record tsdataset =
  observed_cov :: "dataframe option"

text \<open>
  The fields of \<open>DLinear_AD\<close> that the modelled methods read or write.  The
  label adjustment function takes the scores, the raw labels and the threshold.

  The network, its weights and everything else that training changes outside these
  fields form a state of type \<open>'w\<close>, which the training loop and the threshold
  function transform; a data loader has type \<open>'dl\<close>.  The threshold function is
  called with the network (part of the state), the training loader, the validation
  loaders and the anomaly ratio; the criterion it also receives is always
  \<open>mse_loss\<close>.
\<close>

record ('dl, 'w) DLinear_AD =
  in_chunk_len :: nat
  c_in :: nat
  individual_cfg :: bool
  anomaly_ratio :: real
  threshold :: "real option"
  threshold_fn :: "'w \<Rightarrow> 'dl \<Rightarrow> 'dl list \<Rightarrow> real \<Rightarrow> error + (real \<times> 'w)"
  pred_adjust :: bool
  pred_adjust_fn :: "real list \<Rightarrow> int list \<Rightarrow> real \<Rightarrow> int list"
  use_amp :: bool
  amp_level :: string
  fit_params :: "nat option"

text \<open>
  \<open>AnomalyBaseModel\<close> is not part of the file; the two methods of it that \<open>predict\<close>
  calls are parameters of the model.  \<open>_get_anomaly_score\<close> returns one array of
  scores per batch, each of shape \<open>[B, L]\<close> as \<open>_get_loss\<close> produces them.
\<close>

record 'dl predict_hooks =
  init_predict_dataloader :: "tsdataset \<Rightarrow> int \<times> int \<Rightarrow> error + 'dl"
  get_anomaly_score :: "'dl \<Rightarrow> error + tensor2 list"

text \<open>
  \<open>np.concatenate(a, axis=0).reshape(-1)\<close>: the arrays are joined along the first
  axis, which needs at least one array and equal row lengths, and then flattened
  in row-major order.
\<close>

definition row_len :: "tensor2 \<Rightarrow> nat" where
  "row_len a = (case a of [] \<Rightarrow> 0 | r # _ \<Rightarrow> length r)"

definition np_concatenate_flat :: "tensor2 list \<Rightarrow> error + tensor1" where
  "np_concatenate_flat arrs =
     (case arrs of
        [] \<Rightarrow> Inl ValueError
      | a # rest \<Rightarrow>
          if list_all (\<lambda>b. list_all (\<lambda>r. length r = row_len a) b) arrs
          then Inr (concat (concat arrs))
          else Inl ValueError)"

text \<open>
  \<open>(anomaly_score >= self._threshold) + 0\<close>: the comparison gives a Boolean per
  score and adding 0 turns it into the integer 0 or 1.  Comparing with a threshold
  that is still \<open>None\<close> raises a \<open>TypeError\<close>.
\<close>

definition threshold_labels :: "real \<Rightarrow> tensor1 \<Rightarrow> int list" where
  "threshold_labels thr scores = map (\<lambda>s. (if s \<ge> thr then 1 else 0) + 0) scores"

definition predict ::
  "'dl predict_hooks \<Rightarrow> ('dl, 'w) DLinear_AD \<Rightarrow> tsdataset \<Rightarrow> error + int list" where
  "predict hooks self ds =
     (case observed_cov ds of
        None \<Rightarrow> Inl AttributeError
      | Some df \<Rightarrow>
          let boundary = int (length (rows df)) - 1 in
          (case init_predict_dataloader hooks ds (boundary, boundary) of
             Inl e \<Rightarrow> Inl e
           | Inr dataloader \<Rightarrow>
               (case get_anomaly_score hooks dataloader of
                  Inl e \<Rightarrow> Inl e
                | Inr anomaly_score \<Rightarrow>
                    (case np_concatenate_flat anomaly_score of
                       Inl e \<Rightarrow> Inl e
                     | Inr flat \<Rightarrow>
                         (case threshold self of
                            None \<Rightarrow> Inl TypeError
                          | Some thr \<Rightarrow> Inr (threshold_labels thr flat))))))"

subsection \<open>Fitting and the threshold (\<open>fit\<close>, \<open>_get_threshold\<close>)\<close>

text \<open>
  The methods of \<open>AnomalyBaseModel\<close> that \<open>fit\<close> calls.  \<open>_check_tsdataset\<close>
  returns nothing or raises; \<open>_init_fit_dataloaders\<close> returns the training loader,
  which may be \<open>None\<close>, and the validation loaders, and takes the optional
  \<open>shuffle\<close> argument; \<open>_fit\<close> is the training loop.
\<close>

record ('dl, 'w) fit_hooks =
  check_tsdataset :: "tsdataset \<Rightarrow> error option"
  init_fit_dataloaders ::
    "tsdataset \<Rightarrow> tsdataset option \<Rightarrow> bool option \<Rightarrow> error + ('dl option \<times> 'dl list)"
  fit_loop :: "'dl option \<Rightarrow> 'dl list \<Rightarrow> bool \<Rightarrow> 'w \<Rightarrow> error + 'w"

text \<open>\<open>_update_fit_params\<close>: the number of columns of the observed covariates.\<close>

definition update_fit_params :: "tsdataset \<Rightarrow> tsdataset option \<Rightarrow> error + nat" where
  "update_fit_params train_tsdataset valid_tsdataset =
     (case observed_cov train_tsdataset of
        None \<Rightarrow> Inl AttributeError
      | Some df \<Rightarrow> Inr (columns df))"

text \<open>
  \<open>_get_threshold\<close>: \<open>raise_if\<close> raises a \<open>ValueError\<close> when there is no training
  loader.  Both branches of the test on \<open>use_amp\<close> make the same call of the
  threshold function (the automatic mixed precision context only changes the
  floating-point types), store the result in the detector and return it.
\<close>

definition get_threshold ::
  "('dl, 'w) DLinear_AD \<Rightarrow> 'w \<Rightarrow> 'dl option \<Rightarrow> 'dl list
     \<Rightarrow> error + (real \<times> ('dl, 'w) DLinear_AD \<times> 'w)" where
  "get_threshold self w train_dataloader val_dataloader =
     (case train_dataloader of
        None \<Rightarrow> Inl ValueError
      | Some dl \<Rightarrow>
          (case (if use_amp self
                 then threshold_fn self w dl val_dataloader (anomaly_ratio self)
                 else threshold_fn self w dl val_dataloader (anomaly_ratio self)) of
             Inl e \<Rightarrow> Inl e
           | Inr (thr, w') \<Rightarrow> Inr (thr, self\<lparr>threshold := Some thr\<rparr>, w')))"

definition fit ::
  "('dl, 'w) fit_hooks \<Rightarrow> ('dl, 'w) DLinear_AD \<Rightarrow> 'w \<Rightarrow> tsdataset \<Rightarrow> tsdataset option
     \<Rightarrow> bool \<Rightarrow> bool \<Rightarrow> string \<Rightarrow> error + (('dl, 'w) DLinear_AD \<times> 'w)" where
  "fit hooks self0 w train_tsdataset valid_tsdataset to_static_train amp level =
     (let self1 = self0\<lparr>use_amp := amp, amp_level := level\<rparr> in
      case check_tsdataset hooks train_tsdataset of
        Some e \<Rightarrow> Inl e
      | None \<Rightarrow>
      (case (case valid_tsdataset of
               None \<Rightarrow> None
             | Some v \<Rightarrow> check_tsdataset hooks v) of
        Some e \<Rightarrow> Inl e
      | None \<Rightarrow>
      (case update_fit_params train_tsdataset valid_tsdataset of
        Inl e \<Rightarrow> Inl e
      | Inr observed_dim \<Rightarrow>
      (let self2 = self1\<lparr>fit_params := Some observed_dim\<rparr> in
       case init_fit_dataloaders hooks train_tsdataset valid_tsdataset None of
        Inl e \<Rightarrow> Inl e
      | Inr (train_dataloader, valid_dataloaders) \<Rightarrow>
      (case fit_loop hooks train_dataloader valid_dataloaders to_static_train w of
        Inl e \<Rightarrow> Inl e
      | Inr w1 \<Rightarrow>
      (case threshold self2 of
        Some t \<Rightarrow> Inr (self2, w1)
      | None \<Rightarrow>
      (case init_fit_dataloaders hooks train_tsdataset valid_tsdataset (Some False) of
        Inl e \<Rightarrow> Inl e
      | Inr (dataloader, valid_dataloaders') \<Rightarrow>
      (case get_threshold self2 w1 dataloader valid_dataloaders' of
        Inl e \<Rightarrow> Inl e
      | Inr (thr, self3, w2) \<Rightarrow> Inr (self3\<lparr>threshold := Some thr\<rparr>, w2)))))))))"

subsection \<open>The anomaly score (\<open>DLinear_AD._get_loss\<close>)\<close>

text \<open>
  \<open>paddle.nn.functional.mse_loss(input, label, reduction='none')\<close> is the
  elementwise square of \<open>input - label\<close>; the operands are taken to have the same
  shape.  \<open>paddle.mean(x, axis=-1)\<close> divides the sum over the last axis by its
  length.
\<close>

definition mse_loss_none :: "tensor3 \<Rightarrow> tensor3 \<Rightarrow> error + tensor3" where
  "mse_loss_none input label =
     (if map (map length) input = map (map length) label
      then Inr (map2 (map2 (map2 (\<lambda>a b. (a - b)\<^sup>2))) input label)
      else Inl ShapeError)"

definition paddle_mean_last :: "tensor3 \<Rightarrow> tensor2" where
  "paddle_mean_last x = map (map (\<lambda>v. sum_list v / real (length v))) x"

text \<open>The criterion is called with the ground truth first, as in the source.\<close>

definition get_loss :: "tensor3 \<Rightarrow> tensor3 \<Rightarrow> error + tensor2" where
  "get_loss y_pred y_true =
     (case mse_loss_none y_true y_pred of
        Inl e \<Rightarrow> Inl e
      | Inr sq \<Rightarrow> Inr (paddle_mean_last sq))"

subsection \<open>Tensor operations of the library\<close>

text \<open>
  The Paddle operations that the network uses, on tensors of rank 3.  Binary
  elementwise operations are modelled for operands of equal shape; any other pair
  of shapes is reported as \<open>ShapeError\<close>.
\<close>

definition tsub :: "tensor3 \<Rightarrow> tensor3 \<Rightarrow> error + tensor3" where
  "tsub x y =
     (if map (map length) x = map (map length) y
      then Inr (map2 (map2 (map2 (\<lambda>a b. a - b))) x y)
      else Inl ShapeError)"

definition tadd :: "tensor3 \<Rightarrow> tensor3 \<Rightarrow> error + tensor3" where
  "tadd x y =
     (if map (map length) x = map (map length) y
      then Inr (map2 (map2 (map2 (\<lambda>a b. a + b))) x y)
      else Inl ShapeError)"

text \<open>\<open>x.transpose(perm=[0, 2, 1])\<close> swaps the last two axes of every sample.\<close>

definition transpose_021 :: "tensor3 \<Rightarrow> tensor3" where
  "transpose_021 x = map transpose x"

text \<open>
  \<open>x[:, 0:1, :]\<close> and \<open>x[:, -1:, :]\<close> keep the first and the last timestep of every
  sample, as a sequence of length one (of length zero when the sample is empty).
\<close>

definition slice_first :: "tensor3 \<Rightarrow> tensor3" where
  "slice_first x = map (take 1) x"

definition slice_last :: "tensor3 \<Rightarrow> tensor3" where
  "slice_last x = map (\<lambda>r. drop (length r - 1) r) x"

text \<open>
  \<open>t.tile(repeat_times=[1, n, 1])\<close> repeats every sample \<open>n\<close> times along the time
  axis; a negative count is rejected and a count of zero gives an empty time axis.
\<close>

definition tile_axis1 :: "int \<Rightarrow> tensor3 \<Rightarrow> error + tensor3" where
  "tile_axis1 n x =
     (if n < 0 then Inl ValueError
      else Inr (map (\<lambda>r. concat (replicate (nat n) r)) x))"

text \<open>\<open>paddle.concat(x=[a, b, c], axis=1)\<close> joins three tensors along the time axis.\<close>

definition concat_axis1 :: "tensor3 \<Rightarrow> tensor3 \<Rightarrow> tensor3 \<Rightarrow> error + tensor3" where
  "concat_axis1 a b c =
     (if length a = length b \<and> length b = length c
      then Inr (map (\<lambda>(p, q, r). p @ q @ r) (zip a (zip b c)))
      else Inl ShapeError)"

text \<open>
  \<open>paddle.nn.AvgPool1D(kernel_size, stride, padding=0)\<close>.  The constructor only
  stores its arguments.  Applied to a tensor of shape \<open>[N, C, L]\<close> the layer slides
  a window of \<open>kernel_size\<close> entries along the last axis in steps of \<open>stride\<close>,
  without padding, and returns the mean of every window; the output has
  \<open>(L - kernel_size) div stride + 1\<close> entries, and a kernel longer than the input,
  or a kernel or stride that is not positive, is an error.
\<close>

record AvgPool1D =
  pool_kernel_size :: int
  pool_stride :: int

definition pool_row :: "nat \<Rightarrow> nat \<Rightarrow> real list \<Rightarrow> real list" where
  "pool_row k s r =
     map (\<lambda>i. sum_list (take k (drop (i * s) r)) / real k)
       [0 ..< (length r - k) div s + 1]"

definition avg_pool1d :: "AvgPool1D \<Rightarrow> tensor3 \<Rightarrow> error + tensor3" where
  "avg_pool1d p x =
     (let k = pool_kernel_size p; s = pool_stride p in
      if k \<le> 0 \<or> s \<le> 0 then Inl ValueError
      else if list_ex (list_ex (\<lambda>r. int (length r) < k)) x then Inl ValueError
      else Inr (map (map (pool_row (nat k) (nat s))) x))"

subsection \<open>The moving average (\<open>moving_avg\<close>)\<close>

record moving_avg =
  kernel_size :: int
  avg :: AvgPool1D

text \<open>
  \<open>moving_avg.__init__\<close> stores the kernel size and builds the pooling layer; it
  checks nothing and raises nothing.
\<close>

definition moving_avg_init :: "int \<Rightarrow> int \<Rightarrow> error + moving_avg" where
  "moving_avg_init k stride =
     Inr \<lparr>kernel_size = k, avg = \<lparr>pool_kernel_size = k, pool_stride = stride\<rparr>\<rparr>"

definition moving_avg_forward :: "moving_avg \<Rightarrow> tensor3 \<Rightarrow> error + tensor3" where
  "moving_avg_forward self x =
     (case tile_axis1 ((kernel_size self - 1) div 2) (slice_first x) of
        Inl e \<Rightarrow> Inl e
      | Inr front \<Rightarrow>
          (case tile_axis1 ((kernel_size self - 1) div 2) (slice_last x) of
             Inl e \<Rightarrow> Inl e
           | Inr end \<Rightarrow>
               (case concat_axis1 front x end of
                  Inl e \<Rightarrow> Inl e
                | Inr xp \<Rightarrow>
                    (case avg_pool1d (avg self) (transpose_021 xp) of
                       Inl e \<Rightarrow> Inl e
                     | Inr y \<Rightarrow> Inr (transpose_021 y)))))"

text \<open>
  The padding as the specification words it: the first timestep repeated
  \<open>(k - 1) / 2\<close> times in front of the sequence and the last timestep as often
  behind it.
\<close>

definition pad_replicate :: "nat \<Rightarrow> 'a list \<Rightarrow> 'a list" where
  "pad_replicate k r =
     replicate ((k - 1) div 2) (hd r) @ r @ replicate ((k - 1) div 2) (last r)"

subsection \<open>The series decomposition (\<open>series_decomp\<close>)\<close>

record series_decomp =
  moving_avg :: moving_avg

definition series_decomp_init :: "int \<Rightarrow> error + series_decomp" where
  "series_decomp_init k =
     (case moving_avg_init k 1 of
        Inl e \<Rightarrow> Inl e
      | Inr ma \<Rightarrow> Inr \<lparr>moving_avg = ma\<rparr>)"

definition series_decomp_forward ::
  "series_decomp \<Rightarrow> tensor3 \<Rightarrow> error + (tensor3 \<times> tensor3)" where
  "series_decomp_forward self x =
     (case moving_avg_forward (moving_avg self) x of
        Inl e \<Rightarrow> Inl e
      | Inr moving_mean \<Rightarrow>
          (case tsub x moving_mean of
             Inl e \<Rightarrow> Inl e
           | Inr res \<Rightarrow> Inr (res, moving_mean)))"

subsection \<open>Parameters and linear layers\<close>

text \<open>
  A parameter tensor is its shape and its entries in row-major order.
  \<open>paddle.nn.Linear(in_features, out_features)\<close> owns a weight of shape
  \<open>[in_features, out_features]\<close> and a bias of shape \<open>[out_features]\<close>, and maps a
  vector \<open>v\<close> of length \<open>in_features\<close> to \<open>v W + b\<close>.
\<close>

record ndarray =
  shape :: "nat list"
  data :: "real list"

record Linear =
  weight :: ndarray
  bias :: ndarray

definition linear_vec :: "Linear \<Rightarrow> real list \<Rightarrow> real list" where
  "linear_vec l v =
     (let n_out = hd (tl (shape (weight l))) in
      map (\<lambda>j. (\<Sum>i \<leftarrow> [0 ..< length v]. v ! i * data (weight l) ! (i * n_out + j))
               + data (bias l) ! j)
        [0 ..< n_out])"

text \<open>
  The layer applied to a batch of vectors: the length of every vector has to be
  \<open>in_features\<close>, and the bias has to fit the columns of the weight.
\<close>

definition linear_rows :: "Linear \<Rightarrow> tensor2 \<Rightarrow> error + tensor2" where
  "linear_rows l xs =
     (case shape (weight l) of
        [n_in, n_out] \<Rightarrow>
          if shape (bias l) = [n_out] \<and> list_all (\<lambda>v. length v = n_in) xs
          then Inr (map (linear_vec l) xs)
          else Inl ShapeError
      | _ \<Rightarrow> Inl ShapeError)"

definition linear_3d :: "Linear \<Rightarrow> tensor3 \<Rightarrow> error + tensor3" where
  "linear_3d l x =
     (case shape (weight l) of
        [n_in, n_out] \<Rightarrow>
          if shape (bias l) = [n_out] \<and> list_all (list_all (\<lambda>v. length v = n_in)) x
          then Inr (map (map (linear_vec l)) x)
          else Inl ShapeError
      | _ \<Rightarrow> Inl ShapeError)"

subsection \<open>The network (\<open>_DLinearModule\<close>)\<close>

text \<open>
  \<open>Linear_Seasonal\<close> and \<open>Linear_Trend\<close> are one layer each, or a \<open>LayerList\<close> of
  one layer per channel.
\<close>

datatype layers = Single Linear | LayerList "Linear list"

record DLinearModule =
  seq_len :: nat
  pred_len :: nat
  decompsition :: series_decomp
  individual :: bool
  channels :: nat
  Linear_Seasonal :: layers
  Linear_Trend :: layers
  pretrain :: "string option"

text \<open>
  The names of the parameters in a state dictionary: the branch, the index in the
  layer list if there is one, and weight or bias, as in \<open>Linear_Seasonal.3.weight\<close>.
  A pretrained dictionary may hold any other name as well.
\<close>

datatype branch = Seasonal | Trend

datatype field = Weight | Bias

datatype pkey = Param branch "nat option" field | Foreign string

type_synonym state_dict = "(pkey \<times> ndarray) list"

definition linear_items :: "branch \<Rightarrow> nat option \<Rightarrow> Linear \<Rightarrow> state_dict" where
  "linear_items br idx l = [(Param br idx Weight, weight l), (Param br idx Bias, bias l)]"

definition layers_items :: "branch \<Rightarrow> layers \<Rightarrow> state_dict" where
  "layers_items br ls =
     (case ls of
        Single l \<Rightarrow> linear_items br None l
      | LayerList xs \<Rightarrow>
          concat (map (\<lambda>(i, l). linear_items br (Some i) l) (zip [0 ..< length xs] xs)))"

text \<open>\<open>Layer.state_dict()\<close>: the parameters by name, in the order of registration.\<close>

definition state_dict :: "DLinearModule \<Rightarrow> state_dict" where
  "state_dict m = layers_items Seasonal (Linear_Seasonal m) @ layers_items Trend (Linear_Trend m)"

text \<open>Rewriting every parameter of the network by a function of its name and value.\<close>

definition map_linear :: "(pkey \<Rightarrow> ndarray \<Rightarrow> ndarray) \<Rightarrow> branch \<Rightarrow> nat option \<Rightarrow> Linear \<Rightarrow> Linear" where
  "map_linear f br idx l =
     \<lparr>weight = f (Param br idx Weight) (weight l), bias = f (Param br idx Bias) (bias l)\<rparr>"

definition map_layers :: "(pkey \<Rightarrow> ndarray \<Rightarrow> ndarray) \<Rightarrow> branch \<Rightarrow> layers \<Rightarrow> layers" where
  "map_layers f br ls =
     (case ls of
        Single l \<Rightarrow> Single (map_linear f br None l)
      | LayerList xs \<Rightarrow>
          LayerList (map (\<lambda>(i, l). map_linear f br (Some i) l) (zip [0 ..< length xs] xs)))"

definition map_params :: "(pkey \<Rightarrow> ndarray \<Rightarrow> ndarray) \<Rightarrow> DLinearModule \<Rightarrow> DLinearModule" where
  "map_params f m =
     m\<lparr>Linear_Seasonal := map_layers f Seasonal (Linear_Seasonal m),
       Linear_Trend := map_layers f Trend (Linear_Trend m)\<rparr>"

text \<open>
  \<open>Layer.set_dict(d)\<close>: every parameter whose name is in \<open>d\<close> with a value of the
  parameter's shape takes that value; the others keep theirs.
\<close>

definition set_dict :: "DLinearModule \<Rightarrow> state_dict \<Rightarrow> DLinearModule" where
  "set_dict m d =
     map_params (\<lambda>k v. case map_of d k of
                          Some p \<Rightarrow> if shape p = shape v then p else v
                        | None \<Rightarrow> v) m"

text \<open>
  What the network takes from outside: \<open>paddle.load\<close>, the initial values that the
  constructor of \<open>paddle.nn.Linear\<close> gives the entries of a parameter, and the values
  that \<open>th_linear_fill\<close> draws for them.
\<close>

record init_env =
  paddle_load :: "string \<Rightarrow> error + (pkey \<rightharpoonup> ndarray)"
  default_init :: "pkey \<Rightarrow> nat \<Rightarrow> real"
  uniform_draw :: "pkey \<Rightarrow> nat \<Rightarrow> real"

definition Linear_new :: "init_env \<Rightarrow> branch \<Rightarrow> nat option \<Rightarrow> nat \<Rightarrow> nat \<Rightarrow> Linear" where
  "Linear_new env br idx in_features out_features =
     \<lparr>weight = \<lparr>shape = [in_features, out_features],
                data = map (default_init env (Param br idx Weight))
                         [0 ..< in_features * out_features]\<rparr>,
      bias = \<lparr>shape = [out_features],
              data = map (default_init env (Param br idx Bias)) [0 ..< out_features]\<rparr>\<rparr>"

text \<open>
  Modelled from the spec: \<open>param_init.th_linear_fill\<close> (in \<open>paddlets.utils\<close>) is
  not in the file.  It overwrites the entries of the weight and the bias of a
  linear layer with values drawn uniformly from a range derived from
  \<open>1 / sqrt(in_features)\<close>; the shapes stay.  The drawn values are a parameter.
\<close>

definition th_linear_fill :: "(pkey \<Rightarrow> nat \<Rightarrow> real) \<Rightarrow> pkey \<Rightarrow> ndarray \<Rightarrow> ndarray" where
  "th_linear_fill draw k v = v\<lparr>data := map (draw k) [0 ..< length (data v)]\<rparr>"

text \<open>The messages that \<open>init_weight\<close> logs.\<close>

datatype log_event =
    Warn_not_in_pretrained pkey
  | Warn_shape_mismatch pkey "nat list" "nat list"
  | Info_loaded nat nat

text \<open>
  The loop of \<open>init_weight\<close> over the names of the model's state dictionary, with
  the dictionary, the counter and the log as its state.
\<close>

fun load_loop ::
  "pkey list \<Rightarrow> (pkey \<rightharpoonup> ndarray) \<Rightarrow> state_dict \<Rightarrow> nat \<Rightarrow> log_event list
     \<Rightarrow> error + (state_dict \<times> nat \<times> log_event list)" where
  "load_loop [] para model_state_dict num_params_loaded msgs =
     Inr (model_state_dict, num_params_loaded, msgs)"
| "load_loop (k # ks) para model_state_dict num_params_loaded msgs =
     (case para k of
        None \<Rightarrow>
          load_loop ks para model_state_dict num_params_loaded
            (msgs @ [Warn_not_in_pretrained k])
      | Some p \<Rightarrow>
          (case map_of model_state_dict k of
             None \<Rightarrow> Inl KeyError
           | Some v \<Rightarrow>
               if shape p \<noteq> shape v
               then load_loop ks para model_state_dict num_params_loaded
                      (msgs @ [Warn_shape_mismatch k (shape p) (shape v)])
               else load_loop ks para (AList.update k p model_state_dict)
                      (num_params_loaded + 1) msgs))"

text \<open>A path is truthy when it is neither \<open>None\<close> nor the empty string.\<close>

definition init_weight ::
  "init_env \<Rightarrow> DLinearModule \<Rightarrow> error + (DLinearModule \<times> log_event list)" where
  "init_weight env self =
     (case pretrain self of
        Some path \<Rightarrow>
          if path \<noteq> []
          then (case paddle_load env path of
                  Inl e \<Rightarrow> Inl e
                | Inr para_state_dict \<Rightarrow>
                    (let model_state_dict = state_dict self in
                     case load_loop (map fst model_state_dict) para_state_dict
                            model_state_dict 0 [] of
                       Inl e \<Rightarrow> Inl e
                     | Inr (msd, num_params_loaded, msgs) \<Rightarrow>
                         Inr (set_dict self msd,
                              msgs @ [Info_loaded num_params_loaded (length msd)])))
          else Inr (map_params (th_linear_fill (uniform_draw env)) self, [])
      | None \<Rightarrow> Inr (map_params (th_linear_fill (uniform_draw env)) self, []))"

text \<open>
  \<open>_DLinearModule.__init__\<close>.  The argument \<open>pred_len\<close> is not used: the field
  \<open>pred_len\<close> is set from \<open>seq_len\<close>.  The kernel size of the decomposition is 25.
\<close>

definition DLinearModule_init ::
  "init_env \<Rightarrow> nat \<Rightarrow> nat \<Rightarrow> nat \<Rightarrow> bool \<Rightarrow> string option
     \<Rightarrow> error + (DLinearModule \<times> log_event list)" where
  "DLinearModule_init env c_in_arg seq_len_arg pred_len_arg individual_arg pretrain_arg =
     (case series_decomp_init 25 of
        Inl e \<Rightarrow> Inl e
      | Inr decomp \<Rightarrow>
          init_weight env
            \<lparr>seq_len = seq_len_arg,
             pred_len = seq_len_arg,
             decompsition = decomp,
             individual = individual_arg,
             channels = c_in_arg,
             Linear_Seasonal =
               (if individual_arg
                then LayerList (map (\<lambda>i. Linear_new env Seasonal (Some i) seq_len_arg seq_len_arg)
                                  [0 ..< c_in_arg])
                else Single (Linear_new env Seasonal None seq_len_arg seq_len_arg)),
             Linear_Trend =
               (if individual_arg
                then LayerList (map (\<lambda>i. Linear_new env Trend (Some i) seq_len_arg seq_len_arg)
                                  [0 ..< c_in_arg])
                else Single (Linear_new env Trend None seq_len_arg seq_len_arg)),
             pretrain = pretrain_arg\<rparr>)"

text \<open>
  \<open>DLinear_AD._init_network\<close> builds the network from the number of observed
  columns and the length of the input window, which it passes for both \<open>seq_len\<close>
  and \<open>pred_len\<close>.
\<close>

definition init_network ::
  "init_env \<Rightarrow> ('dl, 'w) DLinear_AD \<Rightarrow> error + (DLinearModule \<times> log_event list)" where
  "init_network env self =
     (case fit_params self of
        None \<Rightarrow> Inl KeyError
      | Some observed_dim \<Rightarrow>
          DLinearModule_init env observed_dim (in_chunk_len self) (in_chunk_len self)
            (individual_cfg self) None)"

text \<open>
  \<open>forward\<close> with \<open>individual\<close> set: the outputs start as zeros of shape
  \<open>[B, C, pred_len]\<close>, and for every channel index \<open>i\<close> below \<open>channels\<close> the
  \<open>i\<close>-th layers map the \<open>i\<close>-th series of every sample, the result being stored
  as channel \<open>i\<close> of the output.
\<close>

definition dim1 :: "'a list list \<Rightarrow> nat" where
  "dim1 x = (case x of [] \<Rightarrow> 0 | r # _ \<Rightarrow> length r)"

definition zeros3 :: "nat \<Rightarrow> nat \<Rightarrow> nat \<Rightarrow> tensor3" where
  "zeros3 b c p = replicate b (replicate c (replicate p 0))"

definition select_channel :: "tensor3 \<Rightarrow> nat \<Rightarrow> error + tensor2" where
  "select_channel x i =
     (if list_all (\<lambda>r. i < length r) x then Inr (map (\<lambda>r. r ! i) x) else Inl IndexError)"

definition set_channel :: "tensor3 \<Rightarrow> nat \<Rightarrow> tensor2 \<Rightarrow> error + tensor3" where
  "set_channel out i vs =
     (if \<not> list_all (\<lambda>r. i < length r) out then Inl IndexError
      else if map length vs = map (\<lambda>r. length (r ! i)) out
      then Inr (map2 (\<lambda>r v. r[i := v]) out vs)
      else Inl ShapeError)"

definition get_layer :: "layers \<Rightarrow> nat \<Rightarrow> error + Linear" where
  "get_layer ls i =
     (case ls of
        Single l \<Rightarrow> Inl TypeError
      | LayerList xs \<Rightarrow> if i < length xs then Inr (xs ! i) else Inl IndexError)"

definition channel_step :: "layers \<Rightarrow> tensor3 \<Rightarrow> nat \<Rightarrow> tensor3 \<Rightarrow> error + tensor3" where
  "channel_step ls x_init i output =
     (case get_layer ls i of
        Inl e \<Rightarrow> Inl e
      | Inr l \<Rightarrow>
          (case select_channel x_init i of
             Inl e \<Rightarrow> Inl e
           | Inr series \<Rightarrow>
               (case linear_rows l series of
                  Inl e \<Rightarrow> Inl e
                | Inr vs \<Rightarrow> set_channel output i vs)))"

fun channel_loop ::
  "DLinearModule \<Rightarrow> tensor3 \<Rightarrow> tensor3 \<Rightarrow> nat list \<Rightarrow> tensor3 \<times> tensor3
     \<Rightarrow> error + (tensor3 \<times> tensor3)" where
  "channel_loop self seasonal_init trend_init [] outs = Inr outs"
| "channel_loop self seasonal_init trend_init (i # is) (seasonal_output, trend_output) =
     (case channel_step (Linear_Seasonal self) seasonal_init i seasonal_output of
        Inl e \<Rightarrow> Inl e
      | Inr seasonal_output' \<Rightarrow>
          (case channel_step (Linear_Trend self) trend_init i trend_output of
             Inl e \<Rightarrow> Inl e
           | Inr trend_output' \<Rightarrow>
               channel_loop self seasonal_init trend_init is
                 (seasonal_output', trend_output')))"

definition call_layer :: "layers \<Rightarrow> tensor3 \<Rightarrow> error + tensor3" where
  "call_layer ls x =
     (case ls of
        Single l \<Rightarrow> linear_3d l x
      | LayerList xs \<Rightarrow> Inl TypeError)"

definition forward ::
  "DLinearModule \<Rightarrow> (string \<rightharpoonup> tensor3) \<Rightarrow> error + (tensor3 \<times> tensor3)" where
  "forward self X =
     (case X ''observed_cov_numeric'' of
        None \<Rightarrow> Inl KeyError
      | Some x \<Rightarrow>
      (case series_decomp_forward (decompsition self) x of
        Inl e \<Rightarrow> Inl e
      | Inr (seasonal, trend) \<Rightarrow>
      (let seasonal_init = transpose_021 seasonal;
           trend_init = transpose_021 trend in
       case (if individual self
             then channel_loop self seasonal_init trend_init [0 ..< channels self]
                    (zeros3 (length seasonal_init) (dim1 seasonal_init) (pred_len self),
                     zeros3 (length trend_init) (dim1 trend_init) (pred_len self))
             else (case call_layer (Linear_Seasonal self) seasonal_init of
                     Inl e \<Rightarrow> Inl e
                   | Inr seasonal_output \<Rightarrow>
                       (case call_layer (Linear_Trend self) trend_init of
                          Inl e \<Rightarrow> Inl e
                        | Inr trend_output \<Rightarrow> Inr (seasonal_output, trend_output)))) of
         Inl e \<Rightarrow> Inl e
       | Inr (seasonal_output, trend_output) \<Rightarrow>
           (case tadd seasonal_output trend_output of
              Inl e \<Rightarrow> Inl e
            | Inr y \<Rightarrow> Inr (transpose_021 y, x)))))"

subsection \<open>What loading pretrained parameters should do\<close>

text \<open>
  The specification's words for \<open>init_weight\<close>: a parameter is loaded when its
  name is in the pretrained dictionary with a value of the parameter's shape; a
  loaded parameter takes the pretrained value and any other keeps its own; a
  parameter that is not loaded is reported by a warning.
\<close>

definition loads :: "(pkey \<rightharpoonup> ndarray) \<Rightarrow> pkey \<Rightarrow> ndarray \<Rightarrow> bool" where
  "loads para k v = (case para k of None \<Rightarrow> False | Some p \<Rightarrow> shape p = shape v)"

definition loaded_value :: "(pkey \<rightharpoonup> ndarray) \<Rightarrow> pkey \<Rightarrow> ndarray \<Rightarrow> ndarray" where
  "loaded_value para k v = (if loads para k v then the (para k) else v)"

definition load_warning :: "(pkey \<rightharpoonup> ndarray) \<Rightarrow> pkey \<Rightarrow> ndarray \<Rightarrow> log_event list" where
  "load_warning para k v =
     (case para k of
        None \<Rightarrow> [Warn_not_in_pretrained k]
      | Some p \<Rightarrow> if shape p \<noteq> shape v then [Warn_shape_mismatch k (shape p) (shape v)] else [])"

subsection \<open>Concrete inputs for the worked instances\<close>

definition demo_dataset :: tsdataset where
  "demo_dataset = \<lparr>observed_cov = Some \<lparr>columns = 1, rows = [[0], [0], [0]]\<rparr>\<rparr>"

definition demo_hooks :: "unit predict_hooks" where
  "demo_hooks =
     \<lparr>init_predict_dataloader = (\<lambda>ds b. Inr ()),
      get_anomaly_score = (\<lambda>dl. Inr [[[1/2, 1, 2]]])\<rparr>"

definition mark_all :: "real list \<Rightarrow> int list \<Rightarrow> real \<Rightarrow> int list" where
  "mark_all scores labels thr = map (\<lambda>l. 1) labels"

text \<open>
  A threshold function for the instances: it returns 7 and counts its calls in the
  state, a natural number.
\<close>

definition counting_threshold_fn :: "nat \<Rightarrow> unit \<Rightarrow> unit list \<Rightarrow> real \<Rightarrow> error + (real \<times> nat)" where
  "counting_threshold_fn w dl vdls ratio = Inr (7, Suc w)"

definition demo_detector :: "(unit, nat) DLinear_AD" where
  "demo_detector =
     \<lparr>in_chunk_len = 3, c_in = 1, individual_cfg = False, anomaly_ratio = 1,
      threshold = Some 1, threshold_fn = counting_threshold_fn,
      pred_adjust = True, pred_adjust_fn = mark_all,
      use_amp = False, amp_level = ''O2'', fit_params = None\<rparr>"

definition demo_fit_hooks :: "(unit, nat) fit_hooks" where
  "demo_fit_hooks =
     \<lparr>check_tsdataset = (\<lambda>ds. None),
      init_fit_dataloaders = (\<lambda>train valid shuffle. Inr (Some (), [])),
      fit_loop = (\<lambda>dl vdls to_static w. Inr w)\<rparr>"

definition demo_pred :: tensor3 where
  "demo_pred = [[[1, 2], [3, 5]]]"

definition demo_true :: tensor3 where
  "demo_true = [[[0, 0], [3, 1]]]"

definition demo_window :: tensor3 where
  "demo_window = [[[1, 10], [2, 20], [6, 60]]]"

definition demo_moving_avg :: moving_avg where
  "demo_moving_avg = \<lparr>kernel_size = 3, avg = \<lparr>pool_kernel_size = 3, pool_stride = 1\<rparr>\<rparr>"

text \<open>
  A pretrained dictionary that lacks the bias of the seasonal layer, and a network
  with one shared pair of layers on windows of length one.
\<close>

definition demo_para :: "pkey \<rightharpoonup> ndarray" where
  "demo_para =
     [Param Seasonal None Weight \<mapsto> \<lparr>shape = [1, 1], data = [5]\<rparr>,
      Param Trend None Weight \<mapsto> \<lparr>shape = [1, 1], data = [6]\<rparr>,
      Param Trend None Bias \<mapsto> \<lparr>shape = [1], data = [7]\<rparr>,
      Foreign ''epoch'' \<mapsto> \<lparr>shape = [], data = [3]\<rparr>]"

definition demo_env :: init_env where
  "demo_env =
     \<lparr>paddle_load = (\<lambda>path. if path = ''dlinear.pdparams'' then Inr demo_para else Inl IOError),
      default_init = (\<lambda>k i. 0),
      uniform_draw = (\<lambda>k i. 1)\<rparr>"

definition demo_module :: DLinearModule where
  "demo_module =
     \<lparr>seq_len = 1, pred_len = 1,
      decompsition =
        \<lparr>moving_avg = \<lparr>kernel_size = 25, avg = \<lparr>pool_kernel_size = 25, pool_stride = 1\<rparr>\<rparr>\<rparr>,
      individual = False, channels = 2,
      Linear_Seasonal = Single (Linear_new demo_env Seasonal None 1 1),
      Linear_Trend = Single (Linear_new demo_env Trend None 1 1),
      pretrain = Some ''dlinear.pdparams''\<rparr>"

section \<open>Properties\<close>

subsection \<open>Thresholding in \<open>predict\<close>\<close>

lemma threshold_labels_nth:
  "i < length scores \<Longrightarrow>
     threshold_labels thr scores ! i = (if thr \<le> scores ! i then 1 else 0)"
  by (simp add: threshold_labels_def)

lemma predict_success:
  assumes "observed_cov ds = Some df"
    and "init_predict_dataloader hooks ds
           (int (length (rows df)) - 1, int (length (rows df)) - 1) = Inr dl"
    and "get_anomaly_score hooks dl = Inr score"
    and "np_concatenate_flat score = Inr flat"
    and "threshold self = Some thr"
  shows "predict hooks self ds = Inr (threshold_labels thr flat)"
  using assms by (simp add: predict_def Let_def)

lemma demo_flat: "np_concatenate_flat [[[1/2, 1, 2]]] = Inr [1/2, 1, 2]"
  by (simp add: np_concatenate_flat_def row_len_def)

text \<open>
  C10.  In \<open>predict\<close> the label of a timestep is 1 exactly when its score is greater
  than or equal to the threshold and 0 otherwise; a score equal to the threshold is
  labelled anomalous.
\<close>

theorem predict_label_inclusive:
  assumes "observed_cov ds = Some df"
    and "init_predict_dataloader hooks ds
           (int (length (rows df)) - 1, int (length (rows df)) - 1) = Inr dl"
    and "get_anomaly_score hooks dl = Inr score"
    and "np_concatenate_flat score = Inr flat"
    and "threshold self = Some thr"
  shows "\<exists>labels. predict hooks self ds = Inr labels
           \<and> length labels = length flat
           \<and> (\<forall>i < length flat. labels ! i = (if flat ! i \<ge> thr then 1 else 0))
           \<and> (\<forall>i < length flat. flat ! i = thr \<longrightarrow> labels ! i = 1)"
proof -
  have p: "predict hooks self ds = Inr (threshold_labels thr flat)"
    using assms by (rule predict_success)
  have len: "length (threshold_labels thr flat) = length flat"
    by (simp add: threshold_labels_def)
  show ?thesis
    using p len by (auto simp: threshold_labels_nth)
qed

theorem predict_label_inclusive_witness:
  "observed_cov demo_dataset = Some \<lparr>columns = 1, rows = [[0], [0], [0]]\<rparr>
   \<and> init_predict_dataloader demo_hooks demo_dataset (2, 2) = Inr ()
   \<and> get_anomaly_score demo_hooks () = Inr [[[1/2, 1, 2]]]
   \<and> np_concatenate_flat [[[1/2, 1, 2]]] = Inr [1/2, 1, 2]
   \<and> threshold demo_detector = Some 1
   \<and> (\<exists>labels. predict demo_hooks demo_detector demo_dataset = Inr labels
         \<and> length labels = length [1/2, 1, 2 :: real]
         \<and> (\<forall>i < length [1/2, 1, 2 :: real].
               labels ! i = (if [1/2, 1, 2] ! i \<ge> (1::real) then 1 else 0))
         \<and> (\<forall>i < length [1/2, 1, 2 :: real].
               [1/2, 1, 2] ! i = (1::real) \<longrightarrow> labels ! i = 1))"
proof -
  have h1: "observed_cov demo_dataset = Some \<lparr>columns = 1, rows = [[0], [0], [0]]\<rparr>"
    by (simp add: demo_dataset_def)
  have h2: "init_predict_dataloader demo_hooks demo_dataset
              (int (length (rows \<lparr>columns = 1, rows = [[0], [0], [0]]\<rparr>)) - 1,
               int (length (rows \<lparr>columns = 1, rows = [[0], [0], [0]]\<rparr>)) - 1) = Inr ()"
    by (simp add: demo_hooks_def)
  have h3: "get_anomaly_score demo_hooks () = Inr [[[1/2, 1, 2]]]"
    by (simp add: demo_hooks_def)
  have h5: "threshold demo_detector = Some 1"
    by (simp add: demo_detector_def)
  have h2': "init_predict_dataloader demo_hooks demo_dataset (2, 2) = Inr ()"
    by (simp add: demo_hooks_def)
  from predict_label_inclusive [OF h1 h2 h3 demo_flat h5] h1 h2' h3 h5 demo_flat
  show ?thesis by blast
qed

subsection \<open>Label adjustment in \<open>predict\<close>\<close>

text \<open>
  C7.  The detector is configured with \<open>pred_adjust = True\<close> and an adjustment
  function that changes the raw labels, yet \<open>predict\<close> returns the raw labels
  \<open>[0, 1, 1]\<close>: the adjustment function is never applied.
\<close>

theorem predict_returns_raw_labels:
  "pred_adjust demo_detector
   \<and> predict demo_hooks demo_detector demo_dataset = Inr [0, 1, 1]
   \<and> pred_adjust_fn demo_detector [1/2, 1, 2] [0, 1, 1] 1 = [1, 1, 1]"
  by (simp add: predict_def demo_dataset_def demo_hooks_def demo_detector_def
      mark_all_def demo_flat threshold_labels_def)

subsection \<open>Shapes\<close>

lemma shape2_nth: "shape2 L C x \<Longrightarrow> l < L \<Longrightarrow> length (x ! l) = C"
  by (auto simp: shape2_def list_all_length)

lemma shape2_length: "shape2 L C x \<Longrightarrow> length x = L"
  by (simp add: shape2_def)

lemma shape3_nth: "shape3 B L C x \<Longrightarrow> b < B \<Longrightarrow> shape2 L C (x ! b)"
  by (auto simp: shape3_def list_all_length)

lemma shape3_length: "shape3 B L C x \<Longrightarrow> length x = B"
  by (simp add: shape3_def)

lemma shape2_I:
  "length x = L \<Longrightarrow> (\<And>l. l < L \<Longrightarrow> length (x ! l) = C) \<Longrightarrow> shape2 L C x"
  by (auto simp: shape2_def list_all_length)

lemma shape3_I:
  "length x = B \<Longrightarrow> (\<And>b. b < B \<Longrightarrow> shape2 L C (x ! b)) \<Longrightarrow> shape3 B L C x"
  by (auto simp: shape3_def list_all_length)

lemma shape2_lengths: "shape2 L C x \<Longrightarrow> map length x = replicate L C"
  by (auto simp: shape2_def list_all_length intro!: nth_equalityI)

lemma shape3_lengths:
  "shape3 B L C x \<Longrightarrow> map (map length) x = replicate B (replicate L C)"
  by (auto simp: shape3_def list_all_length shape2_lengths intro!: nth_equalityI)

subsection \<open>The anomaly score\<close>

lemma sum_list_map2_nth:
  "length u = n \<Longrightarrow> length v = n \<Longrightarrow>
     sum_list (map2 f u v) = (\<Sum>c<n. f (u ! c) (v ! c))"
  by (simp add: sum_list_sum_nth atLeast0LessThan)

lemma demo_pred_shape: "shape3 1 2 2 demo_pred"
  by (simp add: demo_pred_def shape3_def shape2_def)

lemma demo_true_shape: "shape3 1 2 2 demo_true"
  by (simp add: demo_true_def shape3_def shape2_def)

text \<open>
  C1.  For a prediction and a ground truth of shape \<open>[B, L, C]\<close> with at least one
  channel, \<open>_get_loss\<close> returns an array of shape \<open>[B, L]\<close> whose entry at
  \<open>(b, l)\<close> is the mean over the channels of the squared differences between
  prediction and ground truth.
\<close>

theorem get_loss_mean_squared_error:
  assumes "shape3 B L C y_pred" and "shape3 B L C y_true" and "0 < C"
  shows "\<exists>score. get_loss y_pred y_true = Inr score
           \<and> shape2 B L score
           \<and> (\<forall>b < B. \<forall>l < L.
                 score ! b ! l
                   = (\<Sum>c < C. (y_pred ! b ! l ! c - y_true ! b ! l ! c)\<^sup>2) / real C)"
proof -
  let ?sq = "map2 (map2 (map2 (\<lambda>a b. (a - b)\<^sup>2))) y_true y_pred"
  have eq: "get_loss y_pred y_true = Inr (paddle_mean_last ?sq)"
    using assms by (simp add: get_loss_def mse_loss_none_def shape3_lengths)
  have lenB: "length y_pred = B" "length y_true = B"
    using assms by (simp_all add: shape3_length)
  have lenL: "\<And>b. b < B \<Longrightarrow> length (y_pred ! b) = L \<and> length (y_true ! b) = L"
    using assms by (auto dest!: shape3_nth shape2_length)
  have lenC: "\<And>b l. b < B \<Longrightarrow> l < L \<Longrightarrow>
      length (y_pred ! b ! l) = C \<and> length (y_true ! b ! l) = C"
    using assms by (auto dest!: shape3_nth dest: shape2_nth)
  have sh: "shape2 B L (paddle_mean_last ?sq)"
    by (rule shape2_I) (simp_all add: paddle_mean_last_def lenB lenL)
  have val: "paddle_mean_last ?sq ! b ! l
      = (\<Sum>c < C. (y_pred ! b ! l ! c - y_true ! b ! l ! c)\<^sup>2) / real C"
    if "b < B" "l < L" for b l
  proof -
    have "paddle_mean_last ?sq ! b ! l
        = sum_list (map2 (\<lambda>a b. (a - b)\<^sup>2) (y_true ! b ! l) (y_pred ! b ! l)) / real C"
      using that lenB lenL[OF that(1)] lenC[OF that]
      by (simp add: paddle_mean_last_def)
    also have "\<dots> = (\<Sum>c < C. (y_true ! b ! l ! c - y_pred ! b ! l ! c)\<^sup>2) / real C"
      using lenC[OF that] by (simp add: sum_list_map2_nth)
    also have "\<dots> = (\<Sum>c < C. (y_pred ! b ! l ! c - y_true ! b ! l ! c)\<^sup>2) / real C"
      by (simp add: power2_commute)
    finally show ?thesis .
  qed
  show ?thesis using eq sh val by blast
qed

theorem get_loss_mean_squared_error_witness:
  "shape3 1 2 2 demo_pred \<and> shape3 1 2 2 demo_true \<and> (0::nat) < 2
   \<and> (\<exists>score. get_loss demo_pred demo_true = Inr score
         \<and> shape2 1 2 score
         \<and> (\<forall>b < 1. \<forall>l < 2.
               score ! b ! l
                 = (\<Sum>c < 2. (demo_pred ! b ! l ! c - demo_true ! b ! l ! c)\<^sup>2) / real 2))"
proof -
  have c: "(0::nat) < 2" by simp
  from get_loss_mean_squared_error [OF demo_pred_shape demo_true_shape c]
    demo_pred_shape demo_true_shape c
  show ?thesis by blast
qed

subsection \<open>The moving average and the decomposition\<close>

lemma transpose_shape2:
  assumes "shape2 L C P" and "0 < L"
  shows "transpose P = map (\<lambda>c. map (\<lambda>t. P ! t ! c) [0..<L]) [0..<C]"
proof -
  have len: "length P = L" using assms by (simp add: shape2_length)
  have "transpose P = map (\<lambda>c. map (\<lambda>t. P ! t ! c) [0..<length P]) [0..<C]"
  proof (rule transpose_rectangle)
    show "P = [] \<Longrightarrow> C = 0" using len assms(2) by auto
    show "\<And>i. i < length P \<Longrightarrow> length (P ! i) = C"
      using assms(1) len by (simp add: shape2_nth)
  qed
  then show ?thesis by (simp add: len)
qed

lemma transpose_shape2_shape:
  assumes "shape2 L C P" and "0 < L"
  shows "shape2 C L (transpose P)"
  by (rule shape2_I) (simp_all add: transpose_shape2[OF assms])

lemma transpose_shape2_nth:
  assumes "shape2 L C P" and "0 < L" and "c < C" and "t < L"
  shows "transpose P ! c ! t = P ! t ! c"
  using assms by (simp add: transpose_shape2[OF assms(1,2)])

lemma tile_take1:
  "r \<noteq> [] \<Longrightarrow> concat (replicate n (take (Suc 0) r)) = replicate n (hd r)"
  by (cases r) (induction n, auto)

lemma tile_last:
  "r \<noteq> [] \<Longrightarrow> concat (replicate n (drop (length r - Suc 0) r)) = replicate n (last r)"
proof -
  assume "r \<noteq> []"
  then have "drop (length r - Suc 0) r = [last r]"
    by (induction r) (auto simp: drop_Cons')
  then show ?thesis by (induction n) auto
qed

lemma sum_list_window:
  assumes "l + k \<le> n"
  shows "sum_list (take k (drop l (map f [0..<n]))) = (\<Sum>j<k. f (l + j))"
proof -
  have "take k (drop l (map f [0..<n])) = map f [l..<l + k]"
    using assms by (simp add: drop_map take_map drop_upt take_upt)
  also have "sum_list \<dots> = (\<Sum>j<k. f (l + j))"
    by (simp add: sum_list_sum_nth atLeast0LessThan)
  finally show ?thesis .
qed

lemma pad_replicate_shape:
  assumes "shape2 L C r" and "0 < L" and "odd k"
  shows "shape2 (L + k - 1) C (pad_replicate k r)"
proof -
  have ne: "r \<noteq> []" using assms by (auto simp: shape2_def)
  have k: "(k - 1) div 2 + (k - 1) div 2 = k - 1" and kpos: "0 < k"
    using assms(3) by (auto elim: oddE)
  have "length (pad_replicate k r) = L + ((k - 1) div 2 + (k - 1) div 2)"
    using assms(1) by (simp add: pad_replicate_def shape2_length)
  then have len: "length (pad_replicate k r) = L + k - 1"
    using k kpos by simp
  have "list_all (\<lambda>v. length v = C) (pad_replicate k r)"
    using assms(1) ne by (auto simp: pad_replicate_def shape2_def list_all_iff)
  then show ?thesis using len by (simp add: shape2_def)
qed

lemma pool_row_stride1:
  assumes "length row = L + k - 1" and "0 < k" and "0 < L"
  shows "pool_row k 1 row = map (\<lambda>l. sum_list (take k (drop l row)) / real k) [0..<L]"
proof -
  have "(length row - k) div 1 + 1 = L" using assms by simp
  then show ?thesis unfolding pool_row_def by simp
qed

lemma moving_avg_sample:
  assumes P: "shape2 (L + k - 1) C P" and "0 < L" and "0 < C" and "0 < k"
  shows "transpose (map (pool_row k 1) (transpose P))
           = map (\<lambda>l. map (\<lambda>c. (\<Sum>j<k. P ! (l + j) ! c) / real k) [0..<C]) [0..<L]"
proof -
  let ?Lp = "L + k - 1"
  have Lp: "0 < ?Lp" using assms by simp
  have tP: "transpose P = map (\<lambda>c. map (\<lambda>t. P ! t ! c) [0..<?Lp]) [0..<C]"
    by (rule transpose_shape2[OF P Lp])
  let ?Q = "map (pool_row k 1) (transpose P)"
  have Qc: "?Q ! c = map (\<lambda>l. (\<Sum>j<k. P ! (l + j) ! c) / real k) [0..<L]" if "c < C" for c
  proof -
    have "?Q ! c = pool_row k 1 (map (\<lambda>t. P ! t ! c) [0..<?Lp])"
      using that by (simp add: tP)
    also have "\<dots> = map (\<lambda>l. sum_list (take k (drop l (map (\<lambda>t. P ! t ! c) [0..<?Lp]))) / real k) [0..<L]"
      by (subst pool_row_stride1[where L = L]) (use assms(2,4) in simp_all)
    also have "\<dots> = map (\<lambda>l. (\<Sum>j<k. P ! (l + j) ! c) / real k) [0..<L]"
      using assms(4) by (intro map_cong refl) (simp add: sum_list_window)
    finally show ?thesis .
  qed
  have Q: "shape2 C L ?Q"
  proof (rule shape2_I)
    show "length ?Q = C" by (simp add: tP)
    show "length (?Q ! c) = L" if "c < C" for c
      by (subst Qc[OF that]) simp
  qed
  have "transpose ?Q = map (\<lambda>l. map (\<lambda>c. ?Q ! c ! l) [0..<C]) [0..<L]"
    using transpose_shape2[OF Q \<open>0 < C\<close>] by simp
  also have "\<dots> = map (\<lambda>l. map (\<lambda>c. (\<Sum>j<k. P ! (l + j) ! c) / real k) [0..<C]) [0..<L]"
    by (intro map_cong refl) (simp add: Qc[unfolded One_nat_def])
  finally show ?thesis .
qed

lemma zip3_map:
  "map f (zip (map g x) (zip x (map h x))) = map (\<lambda>r. f (g r, r, h r)) x"
  by (induction x) auto

lemma concat_padding:
  assumes "\<forall>r \<in> set x. r \<noteq> []"
  shows "concat_axis1 (map (\<lambda>r. concat (replicate n r)) (slice_first x)) x
           (map (\<lambda>r. concat (replicate n r)) (slice_last x))
         = Inr (map (\<lambda>r. replicate n (hd r) @ r @ replicate n (last r)) x)"
proof -
  have "map (\<lambda>(p, q, r). p @ q @ r)
          (zip (map (\<lambda>r. concat (replicate n (take 1 r))) x)
             (zip x (map (\<lambda>r. concat (replicate n (drop (length r - 1) r))) x)))
        = map (\<lambda>r. concat (replicate n (take 1 r)) @ r
                      @ concat (replicate n (drop (length r - 1) r))) x"
    by (simp add: zip3_map)
  also have "\<dots> = map (\<lambda>r. replicate n (hd r) @ r @ replicate n (last r)) x"
    using assms by (intro map_cong refl) (simp add: tile_take1 tile_last)
  finally show ?thesis
    by (simp add: concat_axis1_def slice_first_def slice_last_def comp_def)
qed

lemma moving_avg_forward_eq:
  assumes x: "shape3 B L C x" and "0 < L" and "0 < C" and "odd k"
    and ks: "kernel_size self = int k"
    and av: "avg self = \<lparr>pool_kernel_size = int k, pool_stride = 1\<rparr>"
  shows "moving_avg_forward self x
           = Inr (map (\<lambda>r. map (\<lambda>l. map (\<lambda>c. (\<Sum>j<k. pad_replicate k r ! (l + j) ! c) / real k)
                                [0..<C]) [0..<L]) x)"
proof -
  have kpos: "0 < k" using \<open>odd k\<close> by (auto elim: oddE)
  let ?n = "(k - 1) div 2"
  have n: "(int k - 1) div 2 = int ?n" using kpos by (simp add: zdiv_int of_nat_diff)
  have rows: "\<forall>r \<in> set x. shape2 L C r"
    using x by (simp add: shape3_def list_all_iff)
  have ne: "\<forall>r \<in> set x. r \<noteq> []"
    using rows \<open>0 < L\<close> by (auto simp: shape2_def)
  have padded: "\<forall>r \<in> set x. shape2 (L + k - 1) C (pad_replicate k r)"
    using rows pad_replicate_shape[OF _ \<open>0 < L\<close> \<open>odd k\<close>] by blast
  let ?xp = "map (pad_replicate k) x"
  have cat: "concat_axis1 (map (\<lambda>r. concat (replicate ?n r)) (slice_first x)) x
              (map (\<lambda>r. concat (replicate ?n r)) (slice_last x)) = Inr ?xp"
    using concat_padding[OF ne, of ?n] by (simp add: pad_replicate_def[abs_def])
  have longrows: "\<not> list_ex (list_ex (\<lambda>r. int (length r) < int k)) (transpose_021 ?xp)"
  proof -
    have "length row = L + k - 1"
      if "r \<in> set x" "row \<in> set (transpose (pad_replicate k r))" for r row
    proof -
      have "shape2 C (L + k - 1) (transpose (pad_replicate k r))"
        using padded that(1) \<open>0 < L\<close> kpos by (intro transpose_shape2_shape) auto
      then show ?thesis using that(2) by (auto simp: shape2_def list_all_iff)
    qed
    then show ?thesis using \<open>0 < L\<close> kpos
      by (fastforce simp: list_ex_iff transpose_021_def)
  qed
  have pool: "avg_pool1d (avg self) (transpose_021 ?xp)
                = Inr (map (map (pool_row k 1)) (transpose_021 ?xp))"
    using longrows kpos by (simp add: avg_pool1d_def av Let_def)
  have fwd: "moving_avg_forward self x
               = Inr (transpose_021 (map (map (pool_row k 1)) (transpose_021 ?xp)))"
    using cat pool by (simp add: moving_avg_forward_def ks n tile_axis1_def)
  have "transpose_021 (map (map (pool_row k 1)) (transpose_021 ?xp))
          = map (\<lambda>r. transpose (map (pool_row k 1) (transpose (pad_replicate k r)))) x"
    by (simp add: transpose_021_def comp_def)
  also have "\<dots> = map (\<lambda>r. map (\<lambda>l. map (\<lambda>c. (\<Sum>j<k. pad_replicate k r ! (l + j) ! c) / real k)
                                [0..<C]) [0..<L]) x"
    using padded \<open>0 < L\<close> \<open>0 < C\<close> kpos
    by (intro map_cong refl) (simp add: moving_avg_sample[unfolded One_nat_def])
  finally show ?thesis using fwd by simp
qed

lemma shape3_nth_len:
  assumes "shape3 B L C x" and "b < B"
  shows "length (x ! b) = L" and "l < L \<Longrightarrow> length (x ! b ! l) = C"
  using shape3_nth[OF assms] by (simp_all add: shape2_length shape2_nth)

lemma tensor3_eqI:
  assumes x: "shape3 B L C x" and y: "shape3 B L C y"
    and eq: "\<And>b l c. b < B \<Longrightarrow> l < L \<Longrightarrow> c < C \<Longrightarrow> x ! b ! l ! c = y ! b ! l ! c"
  shows "x = y"
proof (rule nth_equalityI)
  show "length x = length y" using x y by (simp add: shape3_length)
  fix b assume "b < length x"
  then have b: "b < B" using x by (simp add: shape3_length)
  show "x ! b = y ! b"
  proof (rule nth_equalityI)
    show "length (x ! b) = length (y ! b)"
      using shape3_nth_len(1)[OF x b] shape3_nth_len(1)[OF y b] by simp
    fix l assume "l < length (x ! b)"
    then have l: "l < L" using shape3_nth_len(1)[OF x b] by simp
    show "x ! b ! l = y ! b ! l"
    proof (rule nth_equalityI)
      show "length (x ! b ! l) = length (y ! b ! l)"
        using shape3_nth_len(2)[OF x b l] shape3_nth_len(2)[OF y b l] by simp
      fix c assume "c < length (x ! b ! l)"
      then have "c < C" using shape3_nth_len(2)[OF x b l] by simp
      then show "x ! b ! l ! c = y ! b ! l ! c" using eq b l by simp
    qed
  qed
qed

lemma map2_3_shape:
  assumes x: "shape3 B L C x" and y: "shape3 B L C y"
  shows "shape3 B L C (map2 (map2 (map2 f)) x y)"
proof (rule shape3_I)
  show "length (map2 (map2 (map2 f)) x y) = B"
    using x y by (simp add: shape3_length)
  fix b assume b: "b < B"
  show "shape2 L C (map2 (map2 (map2 f)) x y ! b)"
  proof (rule shape2_I)
    show "length (map2 (map2 (map2 f)) x y ! b) = L"
      using b x y shape3_nth_len(1)[OF x b] shape3_nth_len(1)[OF y b]
      by (simp add: shape3_length)
    fix l assume l: "l < L"
    show "length (map2 (map2 (map2 f)) x y ! b ! l) = C"
      using b l x y shape3_nth_len[OF x b] shape3_nth_len[OF y b]
      by (simp add: shape3_length)
  qed
qed

lemma map2_3_nth:
  assumes x: "shape3 B L C x" and y: "shape3 B L C y"
    and "b < B" and "l < L" and "c < C"
  shows "map2 (map2 (map2 f)) x y ! b ! l ! c = f (x ! b ! l ! c) (y ! b ! l ! c)"
  using assms(3-5) x y shape3_nth_len[OF x assms(3)] shape3_nth_len[OF y assms(3)]
  by (simp add: shape3_length)

lemma tsub_shape3:
  assumes "shape3 B L C x" and "shape3 B L C y"
  shows "tsub x y = Inr (map2 (map2 (map2 (\<lambda>a b. a - b))) x y)"
  using assms by (simp add: tsub_def shape3_lengths)

lemma tadd_shape3:
  assumes "shape3 B L C x" and "shape3 B L C y"
  shows "tadd x y = Inr (map2 (map2 (map2 (\<lambda>a b. a + b))) x y)"
  using assms by (simp add: tadd_def shape3_lengths)

lemma moving_avg_forward_shape:
  assumes x: "shape3 B L C x" and "0 < L" and "0 < C" and "odd k"
    and ks: "kernel_size self = int k"
    and av: "avg self = \<lparr>pool_kernel_size = int k, pool_stride = 1\<rparr>"
    and y: "moving_avg_forward self x = Inr y"
  shows "shape3 B L C y"
proof -
  have "y = map (\<lambda>r. map (\<lambda>l. map (\<lambda>c. (\<Sum>j<k. pad_replicate k r ! (l + j) ! c) / real k)
                                [0..<C]) [0..<L]) x"
    using moving_avg_forward_eq[OF assms(1-6)] y by simp
  then show ?thesis
    using x by (auto simp: shape3_def shape2_def list_all_iff)
qed

text \<open>
  C4.  For an input of shape \<open>[B, L, C]\<close> and an odd kernel size \<open>k\<close>, with the
  stride 1 that \<open>series_decomp\<close> passes, the moving average returns a tensor of
  the same shape \<open>[B, L, C]\<close>.  Every sample is padded to length \<open>L + k - 1\<close> by
  \<open>(k - 1) / 2\<close> copies of its first timestep in front and as many copies of its
  last timestep behind, and the output at timestep \<open>l\<close> is the arithmetic mean of
  the \<open>k\<close> padded timesteps \<open>l, \<dots>, l + k - 1\<close>.
\<close>

theorem moving_avg_forward_padded_mean:
  assumes "shape3 B L C x" and "0 < L" and "0 < C" and "odd k"
    and "moving_avg_init (int k) 1 = Inr self"
  shows "\<exists>y. moving_avg_forward self x = Inr y \<and> shape3 B L C y
           \<and> (\<forall>b < B. length (pad_replicate k (x ! b)) = L + k - 1
                 \<and> (\<forall>l < L. \<forall>c < C.
                       y ! b ! l ! c
                         = (\<Sum>j < k. pad_replicate k (x ! b) ! (l + j) ! c) / real k))"
proof -
  have ks: "kernel_size self = int k"
    and av: "avg self = \<lparr>pool_kernel_size = int k, pool_stride = 1\<rparr>"
    using assms(5) by (auto simp: moving_avg_init_def)
  let ?y = "map (\<lambda>r. map (\<lambda>l. map (\<lambda>c. (\<Sum>j<k. pad_replicate k r ! (l + j) ! c) / real k)
                                [0..<C]) [0..<L]) x"
  have fwd: "moving_avg_forward self x = Inr ?y"
    by (rule moving_avg_forward_eq[OF assms(1-4) ks av])
  have sh: "shape3 B L C ?y"
    by (rule moving_avg_forward_shape[OF assms(1-4) ks av fwd])
  have B: "length x = B" using assms(1) by (simp add: shape3_length)
  have len: "length (pad_replicate k (x ! b)) = L + k - 1" if "b < B" for b
    using pad_replicate_shape[OF shape3_nth[OF assms(1) that] assms(2,4)]
    by (simp add: shape2_length)
  have val: "?y ! b ! l ! c = (\<Sum>j < k. pad_replicate k (x ! b) ! (l + j) ! c) / real k"
    if "b < B" "l < L" "c < C" for b l c
    using that B by simp
  show ?thesis using fwd sh len val by blast
qed

lemma demo_window_shape: "shape3 1 3 2 demo_window"
  by (simp add: demo_window_def shape3_def shape2_def)

theorem moving_avg_forward_padded_mean_witness:
  "shape3 1 3 2 demo_window \<and> (0::nat) < 3 \<and> (0::nat) < 2 \<and> odd (3::nat)
   \<and> moving_avg_init (int 3) 1 = Inr demo_moving_avg
   \<and> (\<exists>y. moving_avg_forward demo_moving_avg demo_window = Inr y \<and> shape3 1 3 2 y
         \<and> (\<forall>b < 1. length (pad_replicate 3 (demo_window ! b)) = 3 + 3 - 1
               \<and> (\<forall>l < 3. \<forall>c < 2.
                     y ! b ! l ! c
                       = (\<Sum>j < 3. pad_replicate 3 (demo_window ! b) ! (l + j) ! c) / real 3)))"
proof -
  have h2: "(0::nat) < 3" and h3: "(0::nat) < 2" and h4: "odd (3::nat)" by simp_all
  have h5: "moving_avg_init (int 3) 1 = Inr demo_moving_avg"
    by (simp add: moving_avg_init_def demo_moving_avg_def)
  from moving_avg_forward_padded_mean [OF demo_window_shape h2 h3 h4 h5]
    demo_window_shape h2 h3 h4 h5
  show ?thesis by blast
qed

text \<open>
  C3.  For an input of shape \<open>[B, L, C]\<close> the decomposition with an odd kernel
  returns the pair (seasonal, trend) where the trend is the moving average of the
  input and the seasonal part is the input minus the trend; both have the shape of
  the input and their elementwise sum is the input.
\<close>

theorem series_decomp_reconstructs:
  assumes "shape3 B L C x" and "0 < L" and "0 < C" and "odd k"
    and "series_decomp_init (int k) = Inr self"
  shows "\<exists>seasonal trend.
           series_decomp_forward self x = Inr (seasonal, trend)
           \<and> moving_avg_forward (moving_avg self) x = Inr trend
           \<and> tsub x trend = Inr seasonal
           \<and> shape3 B L C seasonal \<and> shape3 B L C trend
           \<and> tadd seasonal trend = Inr x
           \<and> (\<forall>b < B. \<forall>l < L. \<forall>c < C.
                 seasonal ! b ! l ! c + trend ! b ! l ! c = x ! b ! l ! c)"
proof -
  have ks: "kernel_size (moving_avg self) = int k"
    and av: "avg (moving_avg self) = \<lparr>pool_kernel_size = int k, pool_stride = 1\<rparr>"
    using assms(5) by (auto simp: series_decomp_init_def moving_avg_init_def)
  obtain trend where trend: "moving_avg_forward (moving_avg self) x = Inr trend"
    using moving_avg_forward_eq[OF assms(1-4) ks av] by blast
  have tsh: "shape3 B L C trend"
    by (rule moving_avg_forward_shape[OF assms(1-4) ks av trend])
  define seasonal where "seasonal = map2 (map2 (map2 (\<lambda>a b. a - b))) x trend"
  have sub: "tsub x trend = Inr seasonal"
    unfolding seasonal_def by (rule tsub_shape3[OF assms(1) tsh])
  have ssh: "shape3 B L C seasonal"
    unfolding seasonal_def by (rule map2_3_shape[OF assms(1) tsh])
  have fwd: "series_decomp_forward self x = Inr (seasonal, trend)"
    by (simp add: series_decomp_forward_def trend sub)
  have pt: "seasonal ! b ! l ! c + trend ! b ! l ! c = x ! b ! l ! c"
    if "b < B" "l < L" "c < C" for b l c
    unfolding seasonal_def by (simp add: map2_3_nth[OF assms(1) tsh that])
  have "map2 (map2 (map2 (\<lambda>a b. a + b))) seasonal trend = x"
  proof (rule tensor3_eqI[OF map2_3_shape[OF ssh tsh] assms(1)])
    fix b l c assume "b < B" "l < L" "c < C"
    then show "map2 (map2 (map2 (\<lambda>a b. a + b))) seasonal trend ! b ! l ! c = x ! b ! l ! c"
      using pt by (simp add: map2_3_nth[OF ssh tsh])
  qed
  then have add: "tadd seasonal trend = Inr x"
    using tadd_shape3[OF ssh tsh] by simp
  show ?thesis using fwd trend sub ssh tsh add pt by blast
qed

theorem series_decomp_reconstructs_witness:
  "shape3 1 3 2 demo_window \<and> (0::nat) < 3 \<and> (0::nat) < 2 \<and> odd (3::nat)
   \<and> series_decomp_init (int 3) = Inr \<lparr>moving_avg = demo_moving_avg\<rparr>
   \<and> (\<exists>seasonal trend.
         series_decomp_forward \<lparr>moving_avg = demo_moving_avg\<rparr> demo_window
           = Inr (seasonal, trend)
         \<and> moving_avg_forward (moving_avg \<lparr>moving_avg = demo_moving_avg\<rparr>) demo_window
             = Inr trend
         \<and> tsub demo_window trend = Inr seasonal
         \<and> shape3 1 3 2 seasonal \<and> shape3 1 3 2 trend
         \<and> tadd seasonal trend = Inr demo_window
         \<and> (\<forall>b < 1. \<forall>l < 3. \<forall>c < 2.
               seasonal ! b ! l ! c + trend ! b ! l ! c = demo_window ! b ! l ! c))"
proof -
  have h2: "(0::nat) < 3" and h3: "(0::nat) < 2" and h4: "odd (3::nat)" by simp_all
  have h5: "series_decomp_init (int 3) = Inr \<lparr>moving_avg = demo_moving_avg\<rparr>"
    by (simp add: series_decomp_init_def moving_avg_init_def demo_moving_avg_def)
  from series_decomp_reconstructs [OF demo_window_shape h2 h3 h4 h5]
    demo_window_shape h2 h3 h4 h5
  show ?thesis by blast
qed

subsection \<open>Construction of the moving average\<close>

text \<open>
  C8, as the claim states it: a kernel size that is not a positive odd integer makes
  the construction fail.  The kernel size 4 is even, and the construction succeeds.
\<close>

theorem moving_avg_init_even_kernel:
  "\<not> odd (4::int)
   \<and> moving_avg_init 4 1
       = Inr \<lparr>kernel_size = 4, avg = \<lparr>pool_kernel_size = 4, pool_stride = 1\<rparr>\<rparr>"
  by (simp add: moving_avg_init_def)

text \<open>
  C8, amended.  Constructing the moving average checks nothing: for every kernel
  size and stride, valid or not, the construction succeeds and stores both; so does
  the construction of the decomposition, which passes the stride 1.
\<close>

theorem moving_avg_init_succeeds:
  "moving_avg_init k stride
     = Inr \<lparr>kernel_size = k, avg = \<lparr>pool_kernel_size = k, pool_stride = stride\<rparr>\<rparr>
   \<and> moving_avg_init k stride \<noteq> Inl ConfigurationError
   \<and> series_decomp_init k
       = Inr \<lparr>moving_avg =
               \<lparr>kernel_size = k, avg = \<lparr>pool_kernel_size = k, pool_stride = 1\<rparr>\<rparr>\<rparr>"
  by (simp add: moving_avg_init_def series_decomp_init_def)

subsection \<open>The threshold after fitting\<close>

lemma get_threshold_no_train:
  "get_threshold self w None vdls = Inl ValueError"
  by (simp add: get_threshold_def)

lemma get_threshold_Inr:
  assumes "get_threshold self w tdl vdls = Inr (thr, self', w')"
  shows "\<exists>dl. tdl = Some dl
           \<and> threshold_fn self w dl vdls (anomaly_ratio self) = Inr (thr, w')
           \<and> self' = self\<lparr>threshold := Some thr\<rparr>"
  using assms
  by (auto simp: get_threshold_def split: option.splits sum.splits prod.splits if_splits)

lemma fit_Inr:
  assumes "fit hooks self w train valid st amp lvl = Inr (self', w')"
  shows "\<exists>tdl vdls w1 d.
           check_tsdataset hooks train = None
           \<and> update_fit_params train valid = Inr d
           \<and> init_fit_dataloaders hooks train valid None = Inr (tdl, vdls)
           \<and> fit_loop hooks tdl vdls st w = Inr w1
           \<and> (case threshold self of
                 Some t \<Rightarrow>
                   self' = self\<lparr>use_amp := amp, amp_level := lvl, fit_params := Some d\<rparr>
                   \<and> w' = w1
               | None \<Rightarrow>
                   (\<exists>dl vdls' thr.
                      init_fit_dataloaders hooks train valid (Some False) = Inr (dl, vdls')
                      \<and> get_threshold
                            (self\<lparr>use_amp := amp, amp_level := lvl, fit_params := Some d\<rparr>)
                            w1 dl vdls'
                          = Inr (thr,
                              self\<lparr>use_amp := amp, amp_level := lvl, fit_params := Some d,
                                   threshold := Some thr\<rparr>, w')
                      \<and> self' = self\<lparr>use_amp := amp, amp_level := lvl,
                                      fit_params := Some d, threshold := Some thr\<rparr>))"
proof -
  from assms obtain d where
    c: "check_tsdataset hooks train = None" and u: "update_fit_params train valid = Inr d"
    by (auto simp: fit_def Let_def split: option.splits sum.splits)
  from assms c u obtain tdl vdls where
    i: "init_fit_dataloaders hooks train valid None = Inr (tdl, vdls)"
    by (auto simp: fit_def Let_def split: option.splits sum.splits prod.splits)
  from assms c u i obtain w1 where f: "fit_loop hooks tdl vdls st w = Inr w1"
    by (auto simp: fit_def Let_def split: option.splits sum.splits prod.splits)
  let ?s2 = "self\<lparr>use_amp := amp, amp_level := lvl, fit_params := Some d\<rparr>"
  have v: "(case valid of None \<Rightarrow> None | Some v \<Rightarrow> check_tsdataset hooks v) = None"
    using assms c by (auto simp: fit_def Let_def split: option.splits sum.splits)
  have rest: "(case threshold self of
        Some t \<Rightarrow> Inr (?s2, w1)
      | None \<Rightarrow>
      (case init_fit_dataloaders hooks train valid (Some False) of
        Inl e \<Rightarrow> Inl e
      | Inr (dataloader, valid_dataloaders') \<Rightarrow>
      (case get_threshold ?s2 w1 dataloader valid_dataloaders' of
        Inl e \<Rightarrow> Inl e
      | Inr (thr, self3, w2) \<Rightarrow> Inr (self3\<lparr>threshold := Some thr\<rparr>, w2)))) = Inr (self', w')"
    using assms by (simp add: fit_def Let_def c v u i f)
  have "case threshold self of
                 Some t \<Rightarrow> self' = ?s2 \<and> w' = w1
               | None \<Rightarrow>
                   (\<exists>dl vdls' thr.
                      init_fit_dataloaders hooks train valid (Some False) = Inr (dl, vdls')
                      \<and> get_threshold ?s2 w1 dl vdls'
                          = Inr (thr, ?s2\<lparr>threshold := Some thr\<rparr>, w')
                      \<and> self' = ?s2\<lparr>threshold := Some thr\<rparr>)"
  proof (cases "threshold self")
    case (Some t)
    then show ?thesis using rest by auto
  next
    case None
    then obtain dl vdls' where
      j: "init_fit_dataloaders hooks train valid (Some False) = Inr (dl, vdls')"
      using rest by (auto split: sum.splits)
    then obtain thr s3 w2 where g: "get_threshold ?s2 w1 dl vdls' = Inr (thr, s3, w2)"
      using rest None by (auto split: sum.splits)
    have s3: "s3 = ?s2\<lparr>threshold := Some thr\<rparr>"
      using get_threshold_Inr[OF g] by auto
    have "self' = s3\<lparr>threshold := Some thr\<rparr>" "w' = w2"
      using rest None j g by auto
    then show ?thesis using None j g s3 by auto
  qed
  then show ?thesis using c u i f by auto
qed

text \<open>
  C2.  When \<open>fit\<close> returns, the detector holds a threshold.  A threshold supplied
  at construction is kept, and the state that \<open>fit\<close> leaves is the one the training
  loop returned: the threshold function has not run.  Without one, the threshold
  function runs once, on the state the training loop returned and on loaders built
  without shuffling, and its result is the threshold.  \<open>_get_threshold\<close> raises
  when it is given no training loader.
\<close>

theorem fit_threshold_once:
  assumes "fit hooks self w train valid st amp lvl = Inr (self', w')"
  shows "(\<exists>tdl vdls w1.
            init_fit_dataloaders hooks train valid None = Inr (tdl, vdls)
            \<and> fit_loop hooks tdl vdls st w = Inr w1
            \<and> (\<exists>t. threshold self' = Some t)
            \<and> (\<forall>t. threshold self = Some t \<longrightarrow> threshold self' = Some t \<and> w' = w1)
            \<and> (threshold self = None \<longrightarrow>
                  (\<exists>dl vdls' thr.
                     init_fit_dataloaders hooks train valid (Some False) = Inr (Some dl, vdls')
                     \<and> threshold_fn self w1 dl vdls' (anomaly_ratio self) = Inr (thr, w')
                     \<and> threshold self' = Some thr)))
         \<and> get_threshold self w None vdls0 = Inl ValueError"
proof -
  from fit_Inr[OF assms] obtain tdl vdls w1 d where
    i: "init_fit_dataloaders hooks train valid None = Inr (tdl, vdls)"
    and f: "fit_loop hooks tdl vdls st w = Inr w1"
    and r: "case threshold self of
                 Some t \<Rightarrow>
                   self' = self\<lparr>use_amp := amp, amp_level := lvl, fit_params := Some d\<rparr>
                   \<and> w' = w1
               | None \<Rightarrow>
                   (\<exists>dl vdls' thr.
                      init_fit_dataloaders hooks train valid (Some False) = Inr (dl, vdls')
                      \<and> get_threshold
                            (self\<lparr>use_amp := amp, amp_level := lvl, fit_params := Some d\<rparr>)
                            w1 dl vdls'
                          = Inr (thr,
                              self\<lparr>use_amp := amp, amp_level := lvl, fit_params := Some d,
                                   threshold := Some thr\<rparr>, w')
                      \<and> self' = self\<lparr>use_amp := amp, amp_level := lvl,
                                      fit_params := Some d, threshold := Some thr\<rparr>)"
    by blast
  have user: "\<forall>t. threshold self = Some t \<longrightarrow> threshold self' = Some t \<and> w' = w1"
    using r by (auto split: option.splits)
  have calib: "\<exists>dl vdls' thr.
                 init_fit_dataloaders hooks train valid (Some False) = Inr (Some dl, vdls')
                 \<and> threshold_fn self w1 dl vdls' (anomaly_ratio self) = Inr (thr, w')
                 \<and> threshold self' = Some thr" if that: "threshold self = None"
  proof -
    from r that obtain dl vdls' thr where
      j: "init_fit_dataloaders hooks train valid (Some False) = Inr (dl, vdls')"
      and g: "get_threshold
                (self\<lparr>use_amp := amp, amp_level := lvl, fit_params := Some d\<rparr>) w1 dl vdls'
              = Inr (thr,
                  self\<lparr>use_amp := amp, amp_level := lvl, fit_params := Some d,
                       threshold := Some thr\<rparr>, w')"
      and s: "self' = self\<lparr>use_amp := amp, amp_level := lvl,
                          fit_params := Some d, threshold := Some thr\<rparr>"
      by auto
    from get_threshold_Inr[OF g] obtain dl' where
      "dl = Some dl'" "threshold_fn self w1 dl' vdls' (anomaly_ratio self) = Inr (thr, w')"
      by auto
    then show ?thesis using j s by auto
  qed
  have some: "\<exists>t. threshold self' = Some t"
    using user calib by (cases "threshold self") auto
  have calib': "threshold self = None \<longrightarrow>
                  (\<exists>dl vdls' thr.
                     init_fit_dataloaders hooks train valid (Some False) = Inr (Some dl, vdls')
                     \<and> threshold_fn self w1 dl vdls' (anomaly_ratio self) = Inr (thr, w')
                     \<and> threshold self' = Some thr)"
    using calib by (rule impI)
  have none: "get_threshold self w None vdls0 = Inl ValueError"
    by (rule get_threshold_no_train)
  show ?thesis
    apply (rule conjI)
     apply (rule exI[of _ tdl], rule exI[of _ vdls], rule exI[of _ w1])
     apply (intro conjI i f some user calib')
    apply (rule none)
    done
qed

lemma demo_fit_calibrates:
  "fit demo_fit_hooks (demo_detector\<lparr>threshold := None\<rparr>) 0 demo_dataset None False False ''O2''
     = Inr (demo_detector\<lparr>threshold := Some 7, fit_params := Some 1\<rparr>, 1)"
  by (simp add: fit_def demo_fit_hooks_def demo_detector_def demo_dataset_def
      update_fit_params_def get_threshold_def counting_threshold_fn_def)

lemma demo_fit_keeps_threshold:
  "fit demo_fit_hooks demo_detector 0 demo_dataset None False False ''O2''
     = Inr (demo_detector\<lparr>fit_params := Some 1\<rparr>, 0)"
  by (simp add: fit_def demo_fit_hooks_def demo_detector_def demo_dataset_def
      update_fit_params_def)

theorem fit_threshold_once_witness:
  "fit demo_fit_hooks (demo_detector\<lparr>threshold := None\<rparr>) 0 demo_dataset None False False ''O2''
     = Inr (demo_detector\<lparr>threshold := Some 7, fit_params := Some 1\<rparr>, 1)
   \<and> threshold (demo_detector\<lparr>threshold := Some 7, fit_params := Some 1\<rparr>) = Some 7
   \<and> threshold_fn (demo_detector\<lparr>threshold := None\<rparr>) 0 () [] 1 = Inr (7, 1)
   \<and> get_threshold (demo_detector\<lparr>threshold := None\<rparr>) 0 None [] = Inl ValueError"
proof -
  have "threshold (demo_detector\<lparr>threshold := Some 7, fit_params := Some 1\<rparr>) = Some 7"
    by simp
  moreover have "threshold_fn (demo_detector\<lparr>threshold := None\<rparr>) 0 () [] 1 = Inr (7, 1)"
    by (simp add: demo_detector_def counting_threshold_fn_def)
  ultimately show ?thesis
    using fit_threshold_once [OF demo_fit_calibrates, of "[]"] demo_fit_calibrates
    by blast
qed

subsection \<open>Loading pretrained parameters\<close>

lemma update_distinct_map:
  "distinct (map fst al) \<Longrightarrow> k \<in> fst ` set al \<Longrightarrow>
     AList.update k p al = map (\<lambda>(k', v'). (k', if k' = k then p else v')) al"
proof (induction al)
  case Nil
  then show ?case by simp
next
  case (Cons a al)
  obtain k' v' where a: "a = (k', v')" by (cases a)
  show ?case
  proof (cases "k' = k")
    case True
    then have "k \<notin> fst ` set al" using Cons.prems a by auto
    then have "map (\<lambda>(k', v'). (k', if k' = k then p else v')) al = al"
      by (induction al) auto
    then show ?thesis using True a by simp
  next
    case False
    then show ?thesis using Cons a by auto
  qed
qed

lemma load_loop_result:
  assumes "distinct (map fst d)" and "set ks \<subseteq> fst ` set d" and "distinct ks"
  shows "load_loop ks para d n msgs
           = Inr (map (\<lambda>(k, v). (k, if k \<in> set ks then loaded_value para k v else v)) d,
                  n + length (filter (\<lambda>k. loads para k (the (map_of d k))) ks),
                  msgs @ concat (map (\<lambda>k. load_warning para k (the (map_of d k))) ks))"
  using assms
proof (induction ks arbitrary: d n msgs)
  case Nil
  have "map (\<lambda>(k, v). (k, v)) d = d" by (induction d) auto
  then show ?case by simp
next
  case (Cons k ks)
  from Cons.prems obtain v where kv: "(k, v) \<in> set d" by auto
  then have mv: "map_of d k = Some v" using Cons.prems(1) by simp
  have kks: "k \<notin> set ks" using Cons.prems(3) by simp
  have sub: "set ks \<subseteq> fst ` set d" and dks: "distinct ks" using Cons.prems by auto
  note IH = Cons.IH[OF _ _ dks]
  show ?case
  proof (cases "loads para k v")
    case False
    have same: "map (\<lambda>(k', v'). (k', if k' \<in> set (k # ks) then loaded_value para k' v' else v')) d
              = map (\<lambda>(k', v'). (k', if k' \<in> set ks then loaded_value para k' v' else v')) d"
    proof (rule map_cong[OF refl])
      fix x assume x: "x \<in> set d"
      obtain k' v' where xx: "x = (k', v')" by (cases x)
      have "v' = v" if "k' = k"
        using that x xx mv Cons.prems(1) by (metis map_of_is_SomeI option.inject)
      then show "(case x of (k', v') \<Rightarrow> (k', if k' \<in> set (k # ks) then loaded_value para k' v' else v'))
               = (case x of (k', v') \<Rightarrow> (k', if k' \<in> set ks then loaded_value para k' v' else v'))"
        using False xx by (auto simp: loaded_value_def)
    qed
    have step: "load_loop (k # ks) para d n msgs
                  = load_loop ks para d n (msgs @ load_warning para k v)"
      using False mv by (auto simp: loads_def load_warning_def split: option.splits)
    show ?thesis
      unfolding step IH[OF Cons.prems(1) sub] same
      using False mv by simp
  next
    case True
    then obtain p where p: "para k = Some p" "shape p = shape v"
      by (auto simp: loads_def split: option.splits)
    let ?d' = "AList.update k p d"
    have d': "?d' = map (\<lambda>(k', v'). (k', if k' = k then p else v')) d"
      using update_distinct_map[OF Cons.prems(1)] kv by force
    have keys: "map fst ?d' = map fst d"
      unfolding d' by (induction d) auto
    have dist': "distinct (map fst ?d')" using keys Cons.prems(1) by simp
    have sub': "set ks \<subseteq> fst ` set ?d'"
      using sub keys by (metis set_map)
    have mo: "map_of ?d' k' = map_of d k'" if "k' \<in> set ks" for k'
      using that kks by (auto simp: update_conv')
    have step: "load_loop (k # ks) para d n msgs = load_loop ks para ?d' (n + 1) msgs"
      using p mv by simp
    have res: "map (\<lambda>(k', v'). (k', if k' \<in> set ks then loaded_value para k' v' else v')) ?d'
             = map (\<lambda>(k', v'). (k', if k' \<in> set (k # ks) then loaded_value para k' v' else v')) d"
      unfolding d' map_map
    proof (rule map_cong[OF refl])
      fix x assume x: "x \<in> set d"
      obtain k' v' where xx: "x = (k', v')" by (cases x)
      have "v' = v" if "k' = k"
        using that x xx mv Cons.prems(1) by (metis map_of_is_SomeI option.inject)
      then show "((\<lambda>(k', v'). (k', if k' \<in> set ks then loaded_value para k' v' else v'))
                   \<circ> (\<lambda>(k', v'). (k', if k' = k then p else v'))) x
               = (case x of (k', v') \<Rightarrow>
                    (k', if k' \<in> set (k # ks) then loaded_value para k' v' else v'))"
        using xx kks p True by (auto simp: loaded_value_def)
    qed
    have cnt: "filter (\<lambda>k'. loads para k' (the (map_of ?d' k'))) ks
             = filter (\<lambda>k'. loads para k' (the (map_of d k'))) ks"
      by (rule filter_cong[OF refl]) (simp add: mo)
    have wrn: "map (\<lambda>k'. load_warning para k' (the (map_of ?d' k'))) ks
             = map (\<lambda>k'. load_warning para k' (the (map_of d k'))) ks"
      by (rule map_cong[OF refl]) (simp add: mo)
    have nowarn: "load_warning para k v = []"
      using p by (simp add: load_warning_def)
    show ?thesis
      unfolding step IH[OF dist' sub'] res cnt wrn
      using True mv nowarn by simp
  qed
qed

lemma linear_items_map:
  "linear_items br idx (map_linear f br idx l)
     = map (\<lambda>(k, v). (k, f k v)) (linear_items br idx l)"
  by (simp add: linear_items_def map_linear_def)

lemma enumerate_items_map:
  "concat (map (\<lambda>(i, l). linear_items br (Some i) l)
            (List.enumerate a (map (\<lambda>(i, l). map_linear f br (Some i) l) (List.enumerate a xs))))
     = map (\<lambda>(k, v). (k, f k v))
         (concat (map (\<lambda>(i, l). linear_items br (Some i) l) (List.enumerate a xs)))"
  by (induction xs arbitrary: a) (simp_all add: linear_items_map)

lemma layers_items_map:
  "layers_items br (map_layers f br ls) = map (\<lambda>(k, v). (k, f k v)) (layers_items br ls)"
proof (cases ls)
  case (Single l)
  then show ?thesis by (simp add: layers_items_def map_layers_def linear_items_map)
next
  case (LayerList xs)
  show ?thesis
    using enumerate_items_map[of br 0 f xs]
    by (simp add: LayerList layers_items_def map_layers_def enumerate_eq_zip)
qed

lemma state_dict_map_params:
  "state_dict (map_params f m) = map (\<lambda>(k, v). (k, f k v)) (state_dict m)"
  by (simp add: state_dict_def map_params_def layers_items_map)

lemma enumerate_items_keys:
  "map fst (concat (map (\<lambda>(i, l). linear_items br (Some i) l) (List.enumerate a xs)))
     = concat (map (\<lambda>i. [Param br (Some i) Weight, Param br (Some i) Bias])
                 [a ..< a + length xs])"
proof (induction xs arbitrary: a)
  case Nil
  then show ?case by simp
next
  case (Cons x xs)
  have "[a ..< a + length (x # xs)] = a # [Suc a ..< Suc a + length xs]"
    by (subst upt_conv_Cons) simp_all
  then show ?case using Cons[of "Suc a"] by (simp add: linear_items_def)
qed

lemma layers_items_keys_branch:
  "k \<in> fst ` set (layers_items br ls) \<Longrightarrow> \<exists>idx f. k = Param br idx f"
proof (cases ls)
  case (Single l)
  assume "k \<in> fst ` set (layers_items br ls)"
  then show ?thesis using Single by (auto simp: layers_items_def linear_items_def)
next
  case (LayerList xs)
  assume "k \<in> fst ` set (layers_items br ls)"
  then have "k \<in> set (map fst (layers_items br ls))" by simp
  moreover have "map fst (layers_items br ls)
      = concat (map (\<lambda>i. [Param br (Some i) Weight, Param br (Some i) Bias]) [0 ..< length xs])"
    using enumerate_items_keys[of br 0 xs]
    by (simp add: LayerList layers_items_def enumerate_eq_zip)
  ultimately have
    "k \<in> set (concat (map (\<lambda>i. [Param br (Some i) Weight, Param br (Some i) Bias])
                         [0 ..< length xs]))"
    by simp
  then show ?thesis by auto
qed

lemma distinct_index_keys:
  "distinct (concat (map (\<lambda>i. [Param br (Some i) Weight, Param br (Some i) Bias]) [a ..< b]))"
  by (rule distinct_concat) (auto simp: distinct_map inj_on_def)

lemma layers_items_distinct: "distinct (map fst (layers_items br ls))"
proof (cases ls)
  case (Single l)
  then show ?thesis by (simp add: layers_items_def linear_items_def)
next
  case (LayerList xs)
  show ?thesis
    using enumerate_items_keys[of br 0 xs] distinct_index_keys[of br 0 "length xs"]
    by (simp add: LayerList layers_items_def enumerate_eq_zip)
qed

lemma state_dict_distinct: "distinct (map fst (state_dict m))"
proof -
  have "fst ` set (layers_items Seasonal (Linear_Seasonal m))
          \<inter> fst ` set (layers_items Trend (Linear_Trend m)) = {}"
    using layers_items_keys_branch[of _ Seasonal] layers_items_keys_branch[of _ Trend]
    by fastforce
  then show ?thesis
    by (simp add: state_dict_def layers_items_distinct)
qed

lemma map_values_keys: "map fst (map (\<lambda>(k, v). (k, g k v)) xs) = map fst xs"
  by (induction xs) auto

lemma loaded_value_shape: "shape (loaded_value para k v) = shape v"
  by (auto simp: loaded_value_def loads_def split: option.splits)

lemma set_dict_loaded:
  "state_dict (set_dict m (map (\<lambda>(k, v). (k, loaded_value para k v)) (state_dict m)))
     = map (\<lambda>(k, v). (k, loaded_value para k v)) (state_dict m)"
proof -
  let ?d = "map (\<lambda>(k, v). (k, loaded_value para k v)) (state_dict m)"
  have mo: "map_of ?d k = Some (loaded_value para k v)" if "(k, v) \<in> set (state_dict m)" for k v
  proof -
    have keys: "map fst ?d = map fst (state_dict m)" by (rule map_values_keys)
    have "distinct (map fst ?d)" unfolding keys by (rule state_dict_distinct)
    moreover have "(k, loaded_value para k v) \<in> set ?d" using that by force
    ultimately show ?thesis by simp
  qed
  have "state_dict (set_dict m ?d)
          = map (\<lambda>(k, v). (k, case map_of ?d k of
                                 Some p \<Rightarrow> if shape p = shape v then p else v
                               | None \<Rightarrow> v)) (state_dict m)"
    by (simp add: set_dict_def state_dict_map_params)
  also have "\<dots> = ?d"
    by (rule map_cong[OF refl]) (auto simp: mo loaded_value_shape)
  finally show ?thesis .
qed

lemma init_weight_pretrained:
  assumes "pretrain self = Some path" and "path \<noteq> []"
    and "paddle_load env path = Inr para"
  shows "init_weight env self
           = Inr (set_dict self (map (\<lambda>(k, v). (k, loaded_value para k v)) (state_dict self)),
                  concat (map (\<lambda>(k, v). load_warning para k v) (state_dict self))
                    @ [Info_loaded (length (filter (\<lambda>(k, v). loads para k v) (state_dict self)))
                         (length (state_dict self))])"
proof -
  let ?sd = "state_dict self"
  have d: "distinct (map fst ?sd)" by (rule state_dict_distinct)
  have the: "the (map_of ?sd k) = v" if "(k, v) \<in> set ?sd" for k v
    using that d by simp
  have r1: "map (\<lambda>(k, v). (k, if k \<in> set (map fst ?sd) then loaded_value para k v else v)) ?sd
          = map (\<lambda>(k, v). (k, loaded_value para k v)) ?sd"
    by (rule map_cong[OF refl]) force
  have r2: "filter (\<lambda>k. loads para k (the (map_of ?sd k))) (map fst ?sd)
          = map fst (filter (\<lambda>(k, v). loads para k v) ?sd)"
    unfolding filter_map
    by (rule arg_cong[where f = "map fst"], rule filter_cong[OF refl]) (auto simp: the)
  have r3: "map (\<lambda>k. load_warning para k (the (map_of ?sd k))) (map fst ?sd)
          = map (\<lambda>(k, v). load_warning para k v) ?sd"
    unfolding map_map by (rule map_cong[OF refl]) (auto simp: the)
  have sub: "set (map fst ?sd) \<subseteq> fst ` set ?sd" by simp
  have "load_loop (map fst ?sd) para ?sd 0 []
          = Inr (map (\<lambda>(k, v). (k, loaded_value para k v)) ?sd,
                 0 + length (map fst (filter (\<lambda>(k, v). loads para k v) ?sd)),
                 [] @ concat (map (\<lambda>(k, v). load_warning para k v) ?sd))"
    using load_loop_result[OF d sub d, of para 0 "[]"] unfolding r1 r2 r3 .
  then have "load_loop (map fst ?sd) para ?sd 0 []
          = Inr (map (\<lambda>(k, v). (k, loaded_value para k v)) ?sd,
                 length (filter (\<lambda>(k, v). loads para k v) ?sd),
                 concat (map (\<lambda>(k, v). load_warning para k v) ?sd))"
    by simp
  then show ?thesis
    using assms by (simp add: init_weight_def Let_def)
qed

lemma filter_all_but_one:
  assumes "distinct xs" and "x0 \<in> set xs" and "\<not> P x0"
    and "\<And>x. x \<in> set xs \<Longrightarrow> x \<noteq> x0 \<Longrightarrow> P x"
  shows "length (filter P xs) = length xs - 1"
proof -
  have "filter (\<lambda>x. \<not> P x) xs = filter (\<lambda>x. x = x0) xs"
    by (rule filter_cong[OF refl]) (use assms in auto)
  moreover have "length (filter (\<lambda>x. x = x0) xs) = 1"
    using assms(1,2) by (simp add: distinct_length_filter)
  ultimately have "length (filter (\<lambda>x. \<not> P x) xs) = 1" by simp
  then show ?thesis
    using sum_length_filter_compl[of P xs] by simp
qed

text \<open>
  C9.  With a pretrained dictionary, \<open>init_weight\<close> does not fail.  Afterwards the
  state dictionary of the network has the same names in the same order; a parameter
  whose name is in the pretrained dictionary with a value of the same shape has the
  pretrained value, and every other parameter has the value it had before.  The
  last message logged reports the number of loaded parameters and the number of
  parameters.  When exactly one name is missing from the pretrained dictionary and
  all the others are loaded, that parameter keeps its value and the number reported
  is the number of parameters minus one.
\<close>

theorem init_weight_loads_matching:
  assumes "pretrain self = Some path" and "path \<noteq> []"
    and "paddle_load env path = Inr para"
  shows "\<exists>m' msgs.
           init_weight env self = Inr (m', msgs)
           \<and> state_dict m'
               = map (\<lambda>(k, v). (k, if loads para k v then the (para k) else v)) (state_dict self)
           \<and> last msgs
               = Info_loaded (length (filter (\<lambda>(k, v). loads para k v) (state_dict self)))
                   (length (state_dict self))
           \<and> (\<forall>k0 v0. (k0, v0) \<in> set (state_dict self) \<and> para k0 = None
                 \<and> (\<forall>(k, v) \<in> set (state_dict self). k \<noteq> k0 \<longrightarrow> loads para k v)
                 \<longrightarrow> last msgs
                       = Info_loaded (length (state_dict self) - 1) (length (state_dict self))
                     \<and> map_of (state_dict m') k0 = Some v0)"
proof -
  let ?sd = "state_dict self"
  let ?m' = "set_dict self (map (\<lambda>(k, v). (k, loaded_value para k v)) ?sd)"
  let ?msgs = "concat (map (\<lambda>(k, v). load_warning para k v) ?sd)
                 @ [Info_loaded (length (filter (\<lambda>(k, v). loads para k v) ?sd)) (length ?sd)]"
  have iw: "init_weight env self = Inr (?m', ?msgs)"
    by (rule init_weight_pretrained[OF assms])
  have sd': "state_dict ?m'
               = map (\<lambda>(k, v). (k, if loads para k v then the (para k) else v)) ?sd"
    using set_dict_loaded[of self para] unfolding loaded_value_def .
  have lst: "last ?msgs = Info_loaded (length (filter (\<lambda>(k, v). loads para k v) ?sd)) (length ?sd)"
    by simp
  have one: "last ?msgs = Info_loaded (length ?sd - 1) (length ?sd)
               \<and> map_of (state_dict ?m') k0 = Some v0"
    if h: "(k0, v0) \<in> set ?sd" "para k0 = None"
      "\<forall>(k, v) \<in> set ?sd. k \<noteq> k0 \<longrightarrow> loads para k v" for k0 v0
  proof -
    have dk: "distinct (map fst ?sd)" by (rule state_dict_distinct)
    then have d: "distinct ?sd" by (rule distinct_map[THEN iffD1, THEN conjunct1])
    have notl: "\<not> (case (k0, v0) of (k, v) \<Rightarrow> loads para k v)"
      using h(2) by (simp add: loads_def)
    have others: "case x of (k, v) \<Rightarrow> loads para k v" if "x \<in> set ?sd" "x \<noteq> (k0, v0)" for x
    proof -
      obtain k v where x: "x = (k, v)" by (cases x)
      have "k \<noteq> k0"
      proof
        assume "k = k0"
        then have "v = v0" using that(1) x h(1) dk
          by (metis map_of_is_SomeI option.inject)
        then show False using that(2) x \<open>k = k0\<close> by simp
      qed
      then show ?thesis using h(3) that(1) x by auto
    qed
    have n: "length (filter (\<lambda>(k, v). loads para k v) ?sd) = length ?sd - 1"
      by (rule filter_all_but_one[where P = "\<lambda>(k, v). loads para k v" and ?x0.0 = "(k0, v0)",
            OF d h(1) notl others])
    have "(k0, if loads para k0 v0 then the (para k0) else v0) \<in> set (state_dict ?m')"
      unfolding sd' using h(1) by force
    moreover have "\<not> loads para k0 v0" using h(2) by (simp add: loads_def)
    moreover have "distinct (map fst (state_dict ?m'))" by (rule state_dict_distinct)
    ultimately have "map_of (state_dict ?m') k0 = Some v0" by simp
    then show ?thesis using lst n by simp
  qed
  show ?thesis
    apply (rule exI[of _ ?m'], rule exI[of _ ?msgs])
    apply (intro conjI iw sd' lst)
    using one by blast
qed

lemma demo_module_state_dict:
  "state_dict demo_module
     = [(Param Seasonal None Weight, \<lparr>shape = [1, 1], data = [0]\<rparr>),
        (Param Seasonal None Bias, \<lparr>shape = [1], data = [0]\<rparr>),
        (Param Trend None Weight, \<lparr>shape = [1, 1], data = [0]\<rparr>),
        (Param Trend None Bias, \<lparr>shape = [1], data = [0]\<rparr>)]"
  by (simp add: demo_module_def state_dict_def layers_items_def linear_items_def
      Linear_new_def demo_env_def)

lemma demo_init_weight:
  "init_weight demo_env demo_module
     = Inr (demo_module
              \<lparr>Linear_Seasonal :=
                 Single \<lparr>weight = \<lparr>shape = [1, 1], data = [5]\<rparr>,
                         bias = \<lparr>shape = [1], data = [0]\<rparr>\<rparr>,
               Linear_Trend :=
                 Single \<lparr>weight = \<lparr>shape = [1, 1], data = [6]\<rparr>,
                         bias = \<lparr>shape = [1], data = [7]\<rparr>\<rparr>\<rparr>,
            [Warn_not_in_pretrained (Param Seasonal None Bias), Info_loaded 3 4])"
proof -
  let ?msd = "[(Param Seasonal None Weight, \<lparr>shape = [1, 1], data = [5]\<rparr>),
               (Param Seasonal None Bias, \<lparr>shape = [1], data = [0]\<rparr>),
               (Param Trend None Weight, \<lparr>shape = [1, 1], data = [6]\<rparr>),
               (Param Trend None Bias, \<lparr>shape = [1], data = [7]\<rparr>)]"
  have p: "pretrain demo_module = Some ''dlinear.pdparams''"
    by (simp add: demo_module_def)
  have l: "paddle_load demo_env ''dlinear.pdparams'' = Inr demo_para"
    by (simp add: demo_env_def)
  have loop: "load_loop (map fst (state_dict demo_module)) demo_para (state_dict demo_module) 0 []
                = Inr (?msd, 3, [Warn_not_in_pretrained (Param Seasonal None Bias)])"
    by (simp add: demo_module_state_dict demo_para_def)
  have sd: "set_dict demo_module ?msd
              = demo_module
                  \<lparr>Linear_Seasonal :=
                     Single \<lparr>weight = \<lparr>shape = [1, 1], data = [5]\<rparr>,
                             bias = \<lparr>shape = [1], data = [0]\<rparr>\<rparr>,
                   Linear_Trend :=
                     Single \<lparr>weight = \<lparr>shape = [1, 1], data = [6]\<rparr>,
                             bias = \<lparr>shape = [1], data = [7]\<rparr>\<rparr>\<rparr>"
    apply (simp add: set_dict_def map_params_def)
    apply (simp add: demo_module_def map_layers_def map_linear_def)
    apply (simp add: Linear_new_def demo_env_def)
    done
  show ?thesis
    using loop sd by (simp add: init_weight_def p l Let_def)
qed

theorem init_weight_loads_matching_witness:
  "pretrain demo_module = Some ''dlinear.pdparams'' \<and> ''dlinear.pdparams'' \<noteq> []
   \<and> paddle_load demo_env ''dlinear.pdparams'' = Inr demo_para
   \<and> (Param Seasonal None Bias, \<lparr>shape = [1], data = [0]\<rparr>) \<in> set (state_dict demo_module)
   \<and> demo_para (Param Seasonal None Bias) = None
   \<and> loads demo_para (Param Seasonal None Weight) \<lparr>shape = [1, 1], data = [0]\<rparr>
   \<and> loads demo_para (Param Trend None Weight) \<lparr>shape = [1, 1], data = [0]\<rparr>
   \<and> loads demo_para (Param Trend None Bias) \<lparr>shape = [1], data = [0]\<rparr>
   \<and> (\<exists>m' msgs.
         init_weight demo_env demo_module = Inr (m', msgs)
         \<and> last msgs = Info_loaded (length (state_dict demo_module) - 1)
                          (length (state_dict demo_module))
         \<and> map_of (state_dict m') (Param Seasonal None Bias)
             = Some \<lparr>shape = [1], data = [0]\<rparr>)"
proof -
  have h1: "pretrain demo_module = Some ''dlinear.pdparams''"
    by (simp add: demo_module_def)
  have h2: "''dlinear.pdparams'' \<noteq> []" by simp
  have h3: "paddle_load demo_env ''dlinear.pdparams'' = Inr demo_para"
    by (simp add: demo_env_def)
  have a1: "(Param Seasonal None Bias, \<lparr>shape = [1], data = [0]\<rparr>)
              \<in> set (state_dict demo_module)"
    by (simp add: demo_module_state_dict)
  have a2: "demo_para (Param Seasonal None Bias) = None"
    by (simp add: demo_para_def)
  have a3: "\<forall>(k, v) \<in> set (state_dict demo_module).
              k \<noteq> Param Seasonal None Bias \<longrightarrow> loads demo_para k v"
    by (simp add: demo_module_state_dict loads_def demo_para_def)
  from init_weight_loads_matching [OF h1 h2 h3] a1 a2 a3
  have "\<exists>m' msgs.
         init_weight demo_env demo_module = Inr (m', msgs)
         \<and> last msgs = Info_loaded (length (state_dict demo_module) - 1)
                          (length (state_dict demo_module))
         \<and> map_of (state_dict m') (Param Seasonal None Bias)
             = Some \<lparr>shape = [1], data = [0]\<rparr>"
    by blast
  moreover have "loads demo_para (Param Seasonal None Weight) \<lparr>shape = [1, 1], data = [0]\<rparr>"
    "loads demo_para (Param Trend None Weight) \<lparr>shape = [1, 1], data = [0]\<rparr>"
    "loads demo_para (Param Trend None Bias) \<lparr>shape = [1], data = [0]\<rparr>"
    by (simp_all add: loads_def demo_para_def)
  ultimately show ?thesis using h1 h2 h3 a1 a2 by blast
qed

end
